theory Spec2Isabelle
  imports Complex_Main "HOL-Library.Multiset"
begin

section \<open>Data model\<close>

text \<open>
  The strategy modules receive a player, a community snapshot and a random number
  generator. A player (member) has an id, a list of abilities, an energy level and an
  incapacitation flag; a community has a list of members and a list of tasks, each task a
  list of difficulties. Python numbers are modelled as exact rationals: \<open>/\<close> is true
  division, \<open>0.25\<close>, \<open>0.5\<close>, \<open>0.6\<close>, \<open>0.7\<close> and \<open>1.5\<close> are the fractions they denote.
\<close>

datatype py_error = IndexError | ZeroDivisionError

record member =
  member_id :: int
  abilities :: "rat list"
  energy :: rat
  incapacitated :: bool

record community =
  members :: "member list"
  tasks :: "rat list list"

section \<open>Cost model of the heuristic module (teams/team_3/preferences.py)\<close>

text \<open>
  \<^verbatim>\<open>sum(max(task[i] - max(player_abilities[i], partner_abilities[i]), 0)
      for i in range(len(task))) / 2\<close>
  The generator reads both ability lists at every index of the task, so it raises
  IndexError exactly when one of them is shorter than the task.
\<close>

definition calculate_partnership_cost :: "rat list \<Rightarrow> rat list \<Rightarrow> rat list \<Rightarrow> py_error + rat" where
  "calculate_partnership_cost player_abilities partner_abilities task =
     (if length player_abilities < length task \<or> length partner_abilities < length task
      then Inl IndexError
      else Inr ((\<Sum>i\<leftarrow>[0..<length task].
                   max (task ! i - max (player_abilities ! i) (partner_abilities ! i)) 0) / 2))"

text \<open>
  \<^verbatim>\<open>sum(max(task[i] - player_abilities[i], 0) for i in range(len(task)))\<close>
\<close>

definition calculate_solo_cost :: "rat list \<Rightarrow> rat list \<Rightarrow> py_error + rat" where
  "calculate_solo_cost player_abilities task =
     (if length player_abilities < length task then Inl IndexError
      else Inr (\<Sum>i\<leftarrow>[0..<length task]. max (task ! i - player_abilities ! i) 0))"

section \<open>The random source\<close>

text \<open>
  \<^verbatim>\<open>global_random\<close> is a \<^verbatim>\<open>random.Random\<close>; the modules only call its \<^verbatim>\<open>shuffle\<close>.
  The generator is represented by the sequence of raw draws it is going to produce, so that
  a statement about every random source is a statement about every such sequence.
  \<^verbatim>\<open>randbelow(n)\<close> reduces the next draw modulo \<open>n\<close>, and \<^verbatim>\<open>shuffle\<close> is the loop of the
  standard library:
  \<^verbatim>\<open>for i in reversed(range(1, len(x))):
      j = randbelow(i + 1)
      x[i], x[j] = x[j], x[i]\<close>
\<close>

type_synonym random_source = "nat \<Rightarrow> nat"

definition randbelow :: "nat \<Rightarrow> random_source \<Rightarrow> nat \<times> random_source" where
  "randbelow n g = (g 0 mod n, \<lambda>k. g (Suc k))"

fun shuffle_loop :: "nat \<Rightarrow> 'a list \<Rightarrow> random_source \<Rightarrow> 'a list \<times> random_source" where
  "shuffle_loop 0 x g = (x, g)"
| "shuffle_loop (Suc i) x g =
     (case randbelow (Suc i + 1) g of
        (j, g') \<Rightarrow> shuffle_loop i (x[Suc i := x ! j, j := x ! Suc i]) g')"

definition shuffle :: "'a list \<Rightarrow> random_source \<Rightarrow> 'a list \<times> random_source" where
  "shuffle x g = shuffle_loop (length x - 1) x g"

section \<open>Loops whose body may raise\<close>

text \<open>
  A \<^verbatim>\<open>for\<close> loop that computes one value per element stops at the first element whose
  computation raises.
\<close>

fun try_map :: "('a \<Rightarrow> py_error + 'b) \<Rightarrow> 'a list \<Rightarrow> py_error + 'b list" where
  "try_map f [] = Inr []"
| "try_map f (x # xs) =
     (case f x of
        Inl e \<Rightarrow> Inl e
      | Inr y \<Rightarrow> (case try_map f xs of Inl e \<Rightarrow> Inl e | Inr ys \<Rightarrow> Inr (y # ys)))"

section \<open>The heuristic module (teams/team_3/preferences.py)\<close>

text \<open>
  \<^verbatim>\<open>zip(task, community_avg_abilities)\<close> stops at the shorter list and never raises.
\<close>

definition calculate_task_difficulty :: "rat list \<Rightarrow> rat list \<Rightarrow> rat" where
  "calculate_task_difficulty task community_avg_abilities =
     (\<Sum>(difficulty, avg_ability)\<leftarrow>zip task community_avg_abilities.
        if difficulty > avg_ability then (difficulty - avg_ability) * (3 / 2)
        else difficulty - avg_ability)"

text \<open>
  \<^verbatim>\<open>community.members[0]\<close> raises IndexError on an empty community, and
  \<^verbatim>\<open>avg_abilities[i] += ability\<close> raises it for a member with more abilities than
  the first one; a member with fewer abilities adds nothing on the missing dimensions.
\<close>

definition get_community_stats :: "community \<Rightarrow> py_error + (rat list \<times> rat)" where
  "get_community_stats c =
     (case members c of
        [] \<Rightarrow> Inl IndexError
      | m0 # _ \<Rightarrow>
          let num_members = length (members c);
              num_abilities = length (abilities m0)
          in if list_ex (\<lambda>m. num_abilities < length (abilities m)) (members c)
             then Inl IndexError
             else Inr (map (\<lambda>i. (\<Sum>m\<leftarrow>members c.
                                     if i < length (abilities m) then abilities m ! i else 0)
                                 / of_nat num_members) [0..<num_abilities],
                       (\<Sum>m\<leftarrow>members c. energy m) / of_nat num_members))"

text \<open>
  The body of the inner loop of \<^verbatim>\<open>phaseIpreferences\<close> for one candidate partner: the
  entries it appends to \<^verbatim>\<open>partnerships[task_index]\<close>, each
  \<^verbatim>\<open>(partner.id, energy_cost, priority)\<close>.
\<close>

definition consider_partner ::
    "member \<Rightarrow> rat \<Rightarrow> rat list \<Rightarrow> rat \<Rightarrow> member \<Rightarrow> py_error + (int \<times> rat \<times> rat) list" where
  "consider_partner player min_energy_reserve task task_difficulty partner =
     (if member_id partner = member_id player \<or> energy partner < min_energy_reserve then Inr []
      else
        case calculate_partnership_cost (abilities player) (abilities partner) task of
          Inl e \<Rightarrow> Inl e
        | Inr energy_cost \<Rightarrow>
            let solo_cost = (\<Sum>i\<leftarrow>[0..<length task]. max (task ! i - abilities player ! i) 0)
            in if energy_cost < min (energy player - min_energy_reserve)
                                    (energy partner - min_energy_reserve)
                  \<and> energy_cost < solo_cost * (3 / 5)
               then Inr [(member_id partner, energy_cost,
                          task_difficulty + (10 - energy_cost) * 2
                            + min (energy player) (energy partner) * (1 / 2))]
               else Inr [])"

text \<open>The first loop: the dictionary \<^verbatim>\<open>partnerships\<close>, in insertion order.\<close>

definition potential_partnerships ::
    "member \<Rightarrow> community \<Rightarrow> rat list \<Rightarrow> rat \<Rightarrow> py_error + (nat \<times> (int \<times> rat \<times> rat) list) list" where
  "potential_partnerships player c community_avg_abilities min_energy_reserve =
     try_map (\<lambda>(task_index, task).
         case try_map (consider_partner player min_energy_reserve task
                         (calculate_task_difficulty task community_avg_abilities)) (members c) of
           Inl e \<Rightarrow> Inl e
         | Inr found \<Rightarrow> Inr (task_index, concat found))
       (enumerate 0 (tasks c))"

text \<open>
  The second loop: per task, the partner list sorted by priority, highest first
  (\<^verbatim>\<open>sort(key=..., reverse=True)\<close> is stable), and its first two entries.
\<close>

definition best_options :: "(nat \<times> (int \<times> rat \<times> rat) list) list \<Rightarrow> (nat \<times> int) list" where
  "best_options partnerships =
     concat (map (\<lambda>(task_index, partner_list).
                if partner_list = [] then []
                else map (\<lambda>(partner_id, _, _). (task_index, partner_id))
                       (take 2 (sort_key (\<lambda>x. - snd (snd x)) partner_list)))
             partnerships)"

definition team3_phaseIpreferences ::
    "member \<Rightarrow> community \<Rightarrow> random_source \<Rightarrow> py_error + (nat \<times> int) list" where
  "team3_phaseIpreferences player c global_random =
     (case get_community_stats c of
        Inl e \<Rightarrow> Inl e
      | Inr (community_avg_abilities, community_avg_energy) \<Rightarrow>
          if energy player < max 2 (community_avg_energy * (1 / 4)) then Inr []
          else
            let tasks_per_player = of_nat (length (tasks c)) / of_nat (length (members c));
                min_energy_reserve = max 1 (min 3 (tasks_per_player * (1 / 2)))
            in case potential_partnerships player c community_avg_abilities min_energy_reserve of
                 Inl e \<Rightarrow> Inl e
               | Inr partnerships \<Rightarrow>
                   Inr (fst (shuffle (best_options partnerships) global_random)))"

text \<open>
  \<^verbatim>\<open>evaluate_task_suitability\<close>: the solo cost first, then \<^verbatim>\<open>ability_match\<close>, whose
  division by \<^verbatim>\<open>len(task)\<close> raises ZeroDivisionError on an empty task, then
  \<^verbatim>\<open>relative_strength\<close>, whose numerator reads \<^verbatim>\<open>community_avg_abilities[i]\<close> on the
  dimensions the task requires and whose denominator is the number of those dimensions.
\<close>

definition evaluate_task_suitability ::
    "member \<Rightarrow> rat list \<Rightarrow> rat list \<Rightarrow> py_error + (rat \<times> rat)" where
  "evaluate_task_suitability player task community_avg_abilities =
     (case calculate_solo_cost (abilities player) task of
        Inl e \<Rightarrow> Inl e
      | Inr energy_cost \<Rightarrow>
          if length task = 0 then Inl ZeroDivisionError
          else
            let ability_match =
                  of_nat (length (filter (\<lambda>i. abilities player ! i \<ge> task ! i) [0..<length task]))
                    / of_nat (length task)
            in if list_ex (\<lambda>i. task ! i > 0 \<and> length community_avg_abilities \<le> i) [0..<length task]
               then Inl IndexError
               else if length (filter (\<lambda>t. t > 0) task) = 0 then Inl ZeroDivisionError
               else
                 let relative_strength =
                       (\<Sum>i\<leftarrow>filter (\<lambda>i. task ! i > 0) [0..<length task].
                           abilities player ! i - community_avg_abilities ! i)
                         / of_nat (length (filter (\<lambda>t. t > 0) task));
                     suitability = (10 - energy_cost) * 2 + ability_match * 5 + relative_strength * 3
                 in Inr (suitability, energy_cost))"

definition get_task_completion_rate :: "community \<Rightarrow> py_error + rat" where
  "get_task_completion_rate c =
     (if length (members c) = 0 then Inl ZeroDivisionError
      else Inr (of_nat (length (tasks c)) / (2 * of_nat (length (members c)))))"

text \<open>
  The list comprehension at the head of \<^verbatim>\<open>phaseIIpreferences\<close>: per dimension of the
  player, the sum over the members (IndexError for a member without that dimension)
  divided by the number of members.
\<close>

definition community_avg_abilities_of :: "member \<Rightarrow> community \<Rightarrow> py_error + rat list" where
  "community_avg_abilities_of player c =
     try_map (\<lambda>i. if list_ex (\<lambda>m. length (abilities m) \<le> i) (members c) then Inl IndexError
                   else if length (members c) = 0 then Inl ZeroDivisionError
                   else Inr ((\<Sum>m\<leftarrow>members c. abilities m ! i) / of_nat (length (members c))))
       [0..<length (abilities player)]"

text \<open>The loop that evaluates all tasks and keeps \<^verbatim>\<open>(i, suitability, energy_cost)\<close>.\<close>

definition task_evaluations ::
    "member \<Rightarrow> community \<Rightarrow> rat list \<Rightarrow> rat \<Rightarrow> py_error + (nat \<times> rat \<times> rat) list" where
  "task_evaluations player c community_avg_abilities available_energy =
     (case try_map (\<lambda>(i, task).
               case evaluate_task_suitability player task community_avg_abilities of
                 Inl e \<Rightarrow> Inl e
               | Inr (suitability, energy_cost) \<Rightarrow>
                   if energy_cost < available_energy \<and> suitability > 0
                      \<and> energy_cost \<le> energy player * (7 / 10)
                   then Inr [(i, suitability, energy_cost)]
                   else Inr [])
             (enumerate 0 (tasks c)) of
        Inl e \<Rightarrow> Inl e
      | Inr kept \<Rightarrow> Inr (concat kept))"

text \<open>
  The greedy loop over the sorted evaluations: the accepted entries, in the order of
  acceptance. \<^verbatim>\<open>selected_tasks\<close> is the list of their task indices.
\<close>

fun accepted_evaluations :: "(nat \<times> rat \<times> rat) list \<Rightarrow> rat \<Rightarrow> rat \<Rightarrow> (nat \<times> rat \<times> rat) list" where
  "accepted_evaluations [] remaining_energy min_energy_reserve = []"
| "accepted_evaluations ((task_index, suitability, energy_cost) # rest) remaining_energy
       min_energy_reserve =
     (if energy_cost \<le> remaining_energy
      then (if remaining_energy - energy_cost < min_energy_reserve
            then [(task_index, suitability, energy_cost)]
            else (task_index, suitability, energy_cost)
                   # accepted_evaluations rest (remaining_energy - energy_cost) min_energy_reserve)
      else accepted_evaluations rest remaining_energy min_energy_reserve)"

definition select_tasks :: "(nat \<times> rat \<times> rat) list \<Rightarrow> rat \<Rightarrow> rat \<Rightarrow> nat list" where
  "select_tasks evaluations remaining_energy min_energy_reserve =
     map fst (accepted_evaluations evaluations remaining_energy min_energy_reserve)"

text \<open>
  The final loop, \<^verbatim>\<open>for i in range(0, len(selected_tasks), group_size)\<close>: the slice
  \<^verbatim>\<open>selected_tasks[i : i + group_size]\<close> is copied, shuffled and written back.
\<close>

definition shuffle_group_at ::
    "nat \<Rightarrow> nat \<Rightarrow> 'a list \<times> random_source \<Rightarrow> 'a list \<times> random_source" where
  "shuffle_group_at group_size i st =
     (case st of (selected_tasks, g) \<Rightarrow>
        (case shuffle (take group_size (drop i selected_tasks)) g of
           (grp, g') \<Rightarrow> (take i selected_tasks @ grp @ drop (i + group_size) selected_tasks, g')))"

definition shuffle_within_groups ::
    "nat \<Rightarrow> 'a list \<Rightarrow> random_source \<Rightarrow> 'a list \<times> random_source" where
  "shuffle_within_groups group_size selected_tasks g =
     fold (shuffle_group_at group_size)
       (map (\<lambda>k. k * group_size)
          [0..<(length selected_tasks + group_size - 1) div group_size])
       (selected_tasks, g)"

text \<open>
  \<^verbatim>\<open>phaseIIpreferences\<close> up to the end of the greedy loop: the reserve, the accepted
  list \<^verbatim>\<open>selected_tasks\<close> before the final randomisation.
\<close>

definition min_energy_reserve_of :: "rat \<Rightarrow> rat" where
  "min_energy_reserve_of completion_rate = max 1 (min 3 completion_rate)"

definition selected_tasks_of :: "member \<Rightarrow> community \<Rightarrow> py_error + nat list" where
  "selected_tasks_of player c =
     (case community_avg_abilities_of player c of
        Inl e \<Rightarrow> Inl e
      | Inr community_avg_abilities \<Rightarrow>
          (case get_task_completion_rate c of
             Inl e \<Rightarrow> Inl e
           | Inr completion_rate \<Rightarrow>
               let min_energy_reserve = min_energy_reserve_of completion_rate
               in if energy player < min_energy_reserve * 2 then Inr []
                  else
                    let available_energy = energy player - min_energy_reserve
                    in case task_evaluations player c community_avg_abilities available_energy of
                         Inl e \<Rightarrow> Inl e
                       | Inr evaluations \<Rightarrow>
                           Inr (select_tasks (sort_key (\<lambda>x. - fst (snd x)) evaluations)
                                  available_energy min_energy_reserve)))"

definition team3_phaseIIpreferences ::
    "member \<Rightarrow> community \<Rightarrow> random_source \<Rightarrow> py_error + nat list" where
  "team3_phaseIIpreferences player c global_random =
     (case selected_tasks_of player c of
        Inl e \<Rightarrow> Inl e
      | Inr selected_tasks \<Rightarrow>
          if selected_tasks = [] then Inr []
          else
            let group_size = max 1 (length selected_tasks div 3)
            in Inr (fst (shuffle_within_groups group_size selected_tasks global_random)))"

section \<open>The optimal-assignment module (teams/team_6/preferences.py)\<close>

definition PHASE_1_ASSIGNMENTS :: bool where
  "PHASE_1_ASSIGNMENTS = False"

text \<open>
  \<^verbatim>\<open>loss_phase1\<close> reads both players' abilities at every index of the task.
\<close>

definition loss_phase1 :: "rat list \<Rightarrow> member \<Rightarrow> member \<Rightarrow> py_error + rat" where
  "loss_phase1 task player1 player2 =
     (if length (abilities player1) < length task \<or> length (abilities player2) < length task
      then Inl IndexError
      else
        let cost = (\<Sum>k\<leftarrow>[0..<length task].
                      max (task ! k - max (abilities player1 ! k) (abilities player2 ! k)) 0);
            cost = cost + max 0 (cost - energy player1 - energy player2) / 2;
            cost = cost + (\<Sum>k\<leftarrow>[0..<length task].
                      max (max (abilities player1 ! k) (abilities player2 ! k) - task ! k) 0);
            cost = cost + (\<Sum>k\<leftarrow>[0..<length task].
                      \<bar>abilities player1 ! k - abilities player2 ! k\<bar>)
        in Inr cost)"

text \<open>
  \<^verbatim>\<open>loss_phase2\<close> ranges over \<^verbatim>\<open>len(abilities)\<close> and reads the task at every such index.
\<close>

definition loss_phase2 :: "rat list \<Rightarrow> rat list \<Rightarrow> rat \<Rightarrow> py_error + rat" where
  "loss_phase2 task player_abilities current_energy =
     (if length task < length player_abilities then Inl IndexError
      else
        let cost = (\<Sum>k\<leftarrow>[0..<length player_abilities]. max (task ! k - player_abilities ! k) 0);
            cost = cost + max 0 (cost - current_energy)
        in Inr cost)"

text \<open>All pairs \<open>(i, j)\<close> with \<open>i < j < num_members\<close>, in the order of the two nested loops.\<close>

definition all_partnerships :: "nat \<Rightarrow> (nat \<times> nat) list" where
  "all_partnerships num_members =
     concat (map (\<lambda>i. map (\<lambda>j. (i, j)) [i + 1..<num_members]) [0..<num_members])"

text \<open>
  The cost matrix of \<^verbatim>\<open>assign_phase1\<close>, as the list of its rows: one row per task, the
  partnership columns first, then one column per member. The two filling loops are the two
  passes below.
\<close>

definition phase1_cost_matrix :: "rat list list \<Rightarrow> member list \<Rightarrow> py_error + rat list list" where
  "phase1_cost_matrix task_list member_list =
     (case try_map (\<lambda>task. try_map (\<lambda>(member1_idx, member2_idx).
                       loss_phase1 task (member_list ! member1_idx) (member_list ! member2_idx))
                     (all_partnerships (length member_list))) task_list of
        Inl e \<Rightarrow> Inl e
      | Inr partnership_costs \<Rightarrow>
          (case try_map (\<lambda>task. try_map (\<lambda>m. loss_phase2 task (abilities m) (energy m))
                           member_list) task_list of
             Inl e \<Rightarrow> Inl e
           | Inr individual_costs \<Rightarrow> Inr (map2 (@) partnership_costs individual_costs)))"

text \<open>
  Modelled from the spec: \<^verbatim>\<open>scipy.optimize.linear_sum_assignment\<close> is imported by the module
  and is not among the repository's sources. The specification says of it that it "solves
  the rectangular minimum-cost bipartite matching (each task matched to exactly one column;
  columns may be matched to at most one task)". \<open>injections n cols\<close> lists the candidates
  of that matching: all ways of giving \<open>n\<close> rows distinct columns out of \<open>cols\<close>.
\<close>

fun injections :: "nat \<Rightarrow> nat list \<Rightarrow> nat list list" where
  "injections 0 cols = [[]]"
| "injections (Suc n) cols =
     concat (map (\<lambda>c. map ((#) c) (injections n (remove1 c cols))) cols)"

text \<open>
  Modelled from the spec: the total cost of a candidate of the missing solver, the sum of
  the matched cells, for a candidate that gives row \<open>i\<close> the column \<open>col_of_row ! i\<close>.
\<close>

definition assignment_cost :: "rat list list \<Rightarrow> nat list \<Rightarrow> rat" where
  "assignment_cost cost_matrix col_of_row =
     (\<Sum>i\<leftarrow>[0..<length col_of_row]. cost_matrix ! i ! (col_of_row ! i))"

text \<open>
  Modelled from the spec: the same total for a matrix with more rows than columns, where the
  missing solver gives column \<open>j\<close> the row \<open>row_of_col ! j\<close>.
\<close>

definition transposed_cost :: "rat list list \<Rightarrow> nat list \<Rightarrow> rat" where
  "transposed_cost cost_matrix row_of_col =
     (\<Sum>j\<leftarrow>[0..<length row_of_col]. cost_matrix ! (row_of_col ! j) ! j)"

text \<open>
  Modelled from the spec: the first candidate of least cost, the choice of the missing
  solver among the candidates.
\<close>

definition least_by :: "('a \<Rightarrow> rat) \<Rightarrow> 'a \<Rightarrow> 'a list \<Rightarrow> 'a" where
  "least_by f x xs = fold (\<lambda>y best. if f y < f best then y else best) xs x"

text \<open>
  Modelled from the spec: \<^verbatim>\<open>linear_sum_assignment(cost_matrix)\<close>, the missing solver. It
  returns the matched row indices in increasing order and the column of each, as the
  library documents: every row is matched when there are at most as many rows as columns,
  and every column otherwise. The number of columns is passed with the rows, since a numpy
  array knows its shape even without rows. Rational costs are always finite, so the
  library's error for an infeasible matrix does not arise.
\<close>

definition linear_sum_assignment :: "nat \<Rightarrow> rat list list \<Rightarrow> nat list \<times> nat list" where
  "linear_sum_assignment num_cols cost_matrix =
     (let num_rows = length cost_matrix in
      if num_rows \<le> num_cols
      then (case injections num_rows [0..<num_cols] of
              [] \<Rightarrow> ([], [])
            | cand # cands \<Rightarrow>
                ([0..<num_rows], least_by (assignment_cost cost_matrix) cand cands))
      else (case injections num_cols [0..<num_rows] of
              [] \<Rightarrow> ([], [])
            | cand # cands \<Rightarrow>
                let row_of_col = least_by (transposed_cost cost_matrix) cand cands;
                    pairs = sort_key fst (zip row_of_col [0..<num_cols])
                in (map fst pairs, map snd pairs)))"

text \<open>
  \<^verbatim>\<open>assign_phase1\<close>: the decoded assignments \<^verbatim>\<open>(ids, task, loss)\<close> and the total cost.
\<close>

definition assign_phase1 ::
    "rat list list \<Rightarrow> member list \<Rightarrow> py_error + ((int list \<times> rat list \<times> rat) list \<times> rat)" where
  "assign_phase1 task_list member_list =
     (let num_members = length member_list;
          partnerships = all_partnerships num_members;
          num_partnerships = length partnerships
      in case phase1_cost_matrix task_list member_list of
           Inl e \<Rightarrow> Inl e
         | Inr cost_matrix \<Rightarrow>
             (case linear_sum_assignment (num_partnerships + num_members) cost_matrix of
                (row_indices, col_indices) \<Rightarrow>
                  let assignments =
                        map (\<lambda>(task_idx, col_idx).
                               if col_idx < num_partnerships
                               then (case partnerships ! col_idx of
                                       (member1_idx, member2_idx) \<Rightarrow>
                                         ([member_id (member_list ! member1_idx),
                                           member_id (member_list ! member2_idx)],
                                          task_list ! task_idx,
                                          cost_matrix ! task_idx ! col_idx))
                               else ([member_id (member_list ! (col_idx - num_partnerships))],
                                     task_list ! task_idx,
                                     cost_matrix ! task_idx ! col_idx))
                          (zip row_indices col_indices);
                      total_cost = (\<Sum>i\<leftarrow>[0..<length row_indices].
                                       cost_matrix ! (row_indices ! i) ! (col_indices ! i))
                  in Inr (assignments, total_cost)))"

text \<open>\<^verbatim>\<open>list.index(x)\<close> for an element of the list: the first position holding it.\<close>

definition index_of :: "'a list \<Rightarrow> 'a \<Rightarrow> nat" where
  "index_of xs x = length (takeWhile (\<lambda>y. y \<noteq> x) xs)"

text \<open>
  \<^verbatim>\<open>phaseIpreferences\<close> of this module: the whole body is inside \<^verbatim>\<open>try\<close>, and its
  handler prints the exception; \<^verbatim>\<open>list_choices\<close> is returned in every case. Only
  \<^verbatim>\<open>assign_phase1\<close> can raise, before anything is appended.
\<close>

definition team6_phaseIpreferences ::
    "member \<Rightarrow> community \<Rightarrow> random_source \<Rightarrow> (nat \<times> int) list" where
  "team6_phaseIpreferences player c global_random =
     (if PHASE_1_ASSIGNMENTS
      then (case assign_phase1 (tasks c) (members c) of
              Inl e \<Rightarrow> []
            | Inr (assignments, total_cost) \<Rightarrow>
                concat (map (\<lambda>(ids, assigned_task, loss).
                    if length ids = 2 \<and> member_id player \<in> set ids
                    then concat (map (\<lambda>task.
                           if task = assigned_task
                           then (if member_id player = ids ! 0
                                 then [(index_of (tasks c) task, ids ! 1)]
                                 else [(index_of (tasks c) task, ids ! 0)])
                           else []) (tasks c))
                    else []) assignments))
      else [])"

section \<open>The cost model in the words of the specification\<close>

text \<open>
  \<open>soloCost(task, abilities)\<close> is the sum over all dimensions of
  \<open>max(task[i] - abilities[i], 0)\<close>; \<open>partnershipCost(task, a1, a2)\<close> is
  \<open>soloCost(task, elementwiseMax(a1, a2)) / 2\<close>; \<open>richLoss\<close> is the partnership cost plus
  (i) half of whatever cost exceeds the partners' combined energy, (ii) the per-dimension
  overshoot of the pair's best-of abilities over the task, (iii) the sum of the absolute
  per-dimension differences of the two ability vectors.
\<close>

definition soloCost :: "rat list \<Rightarrow> rat list \<Rightarrow> rat" where
  "soloCost task ab = (\<Sum>i\<leftarrow>[0..<length task]. max (task ! i - ab ! i) 0)"

definition elementwiseMax :: "rat list \<Rightarrow> rat list \<Rightarrow> rat list" where
  "elementwiseMax a1 a2 = map2 max a1 a2"

definition partnershipCost :: "rat list \<Rightarrow> rat list \<Rightarrow> rat list \<Rightarrow> rat" where
  "partnershipCost task a1 a2 = soloCost task (elementwiseMax a1 a2) / 2"

definition overshoot_penalty :: "rat list \<Rightarrow> rat list \<Rightarrow> rat list \<Rightarrow> rat" where
  "overshoot_penalty task a1 a2 =
     (\<Sum>i\<leftarrow>[0..<length task]. max (elementwiseMax a1 a2 ! i - task ! i) 0)"

definition mismatch_penalty :: "rat list \<Rightarrow> rat list \<Rightarrow> rat list \<Rightarrow> rat" where
  "mismatch_penalty task a1 a2 = (\<Sum>i\<leftarrow>[0..<length task]. \<bar>a1 ! i - a2 ! i\<bar>)"

definition richLoss :: "rat list \<Rightarrow> rat list \<Rightarrow> rat list \<Rightarrow> rat \<Rightarrow> rat \<Rightarrow> rat" where
  "richLoss task a1 a2 e1 e2 =
     partnershipCost task a1 a2
       + max 0 (partnershipCost task a1 a2 - (e1 + e2)) / 2
       + overshoot_penalty task a1 a2
       + mismatch_penalty task a1 a2"

text \<open>
  The group size in the words of the specification, \<open>\<lceil>acceptedCount / 3\<rceil>\<close>. The source
  computes \<^verbatim>\<open>max(1, len(selected_tasks) // 3)\<close>.
\<close>

definition spec_group_size :: "nat \<Rightarrow> nat" where
  "spec_group_size accepted_count = (accepted_count + 2) div 3"

section \<open>Properties of the cost model\<close>

lemma sum_list_max0_nonneg:
  fixes f :: "nat \<Rightarrow> rat"
  shows "0 \<le> (\<Sum>i\<leftarrow>xs. max (f i) 0)"
  by (rule sum_list_nonneg) auto

lemma sum_list_max0_eq_0_iff:
  fixes f :: "nat \<Rightarrow> rat"
  shows "(\<Sum>i\<leftarrow>xs. max (f i) 0) = 0 \<longleftrightarrow> (\<forall>i\<in>set xs. f i \<le> 0)"
proof -
  have "(\<Sum>i\<leftarrow>xs. max (f i) 0) = 0 \<longleftrightarrow> (\<forall>y\<in>set (map (\<lambda>i. max (f i) 0) xs). y = 0)"
    by (rule sum_list_nonneg_eq_0_iff) auto
  also have "\<dots> \<longleftrightarrow> (\<forall>i\<in>set xs. max (f i) 0 = 0)"
    by auto
  also have "\<dots> \<longleftrightarrow> (\<forall>i\<in>set xs. f i \<le> 0)"
    by (intro ball_cong refl) (simp add: max_def)
  finally show ?thesis .
qed

lemma sum_list_max0_mono:
  fixes f g :: "nat \<Rightarrow> rat"
  assumes "\<And>i. i \<in> set xs \<Longrightarrow> f i \<le> g i"
  shows "(\<Sum>i\<leftarrow>xs. max (f i) 0) \<le> (\<Sum>i\<leftarrow>xs. max (g i) 0)"
proof (rule sum_list_mono)
  fix i assume "i \<in> set xs"
  then have "f i \<le> g i" by (rule assms)
  then show "max (f i) 0 \<le> max (g i) 0" by (simp add: max_def)
qed

text \<open>
  C8. For a task \<open>T\<close> and an ability vector \<open>A\<close> of the same length, the solo cost is
  computed without error, it is non-negative, and it is zero exactly when \<open>A\<close> meets or
  exceeds \<open>T\<close> on every dimension.
\<close>

theorem solo_cost_nonneg_zero_iff:
  assumes "length A = length T"
  shows "\<exists>s. calculate_solo_cost A T = Inr s \<and> 0 \<le> s \<and>
             (s = 0 \<longleftrightarrow> (\<forall>i<length T. T ! i \<le> A ! i))"
proof -
  let ?s = "\<Sum>i\<leftarrow>[0..<length T]. max (T ! i - A ! i) 0"
  have "calculate_solo_cost A T = Inr ?s"
    using assms by (simp add: calculate_solo_cost_def)
  moreover have "0 \<le> ?s"
    by (rule sum_list_max0_nonneg)
  moreover have "?s = 0 \<longleftrightarrow> (\<forall>i<length T. T ! i \<le> A ! i)"
    by (auto simp: sum_list_max0_eq_0_iff)
  ultimately show ?thesis by blast
qed

theorem solo_cost_nonneg_zero_iff_witness:
  "length [3, 6 :: rat] = length [5, 5 :: rat] \<and>
   calculate_solo_cost [3, 6] [5, 5] = Inr 2 \<and>
   (\<exists>s. calculate_solo_cost [5, 6] [5, 5] = Inr s \<and> 0 \<le> s \<and> s = 0)"
proof -
  have "\<exists>s. calculate_solo_cost [5, 6] [5, 5] = Inr s \<and> 0 \<le> s \<and>
             (s = 0 \<longleftrightarrow> (\<forall>i<length [5, 5 :: rat]. [5, 5] ! i \<le> [5, 6 :: rat] ! i))"
    by (rule solo_cost_nonneg_zero_iff) simp
  moreover have "\<forall>i<length [5, 5 :: rat]. [5, 5] ! i \<le> [5, 6 :: rat] ! i"
    by (simp add: less_Suc_eq nth_Cons')
  ultimately have "\<exists>s. calculate_solo_cost [5, 6] [5, 5] = Inr s \<and> 0 \<le> s \<and> s = 0"
    by blast
  moreover have "calculate_solo_cost [3, 6] [5, 5] = Inr 2"
    by (simp add: calculate_solo_cost_def upt_rec)
  ultimately show ?thesis by simp
qed

text \<open>
  C7. For a task \<open>T\<close> and two ability vectors of the same length as \<open>T\<close>, the partnership
  cost is at most the solo cost of either partner.
\<close>

theorem partnership_cost_le_solo_cost:
  assumes "length a1 = length T" and "length a2 = length T"
  shows "\<exists>pc s1 s2. calculate_partnership_cost a1 a2 T = Inr pc \<and>
           calculate_solo_cost a1 T = Inr s1 \<and> calculate_solo_cost a2 T = Inr s2 \<and>
           pc \<le> s1 \<and> pc \<le> s2"
proof -
  let ?S = "\<Sum>i\<leftarrow>[0..<length T]. max (T ! i - max (a1 ! i) (a2 ! i)) 0"
  let ?s1 = "\<Sum>i\<leftarrow>[0..<length T]. max (T ! i - a1 ! i) 0"
  let ?s2 = "\<Sum>i\<leftarrow>[0..<length T]. max (T ! i - a2 ! i) 0"
  have pc: "calculate_partnership_cost a1 a2 T = Inr (?S / 2)"
    using assms by (simp add: calculate_partnership_cost_def)
  have s1: "calculate_solo_cost a1 T = Inr ?s1" and s2: "calculate_solo_cost a2 T = Inr ?s2"
    using assms by (simp_all add: calculate_solo_cost_def)
  have nonneg: "0 \<le> ?S" by (rule sum_list_max0_nonneg)
  have "?S \<le> ?s1" by (rule sum_list_max0_mono) auto
  moreover have "?S \<le> ?s2" by (rule sum_list_max0_mono) auto
  moreover have "?S / 2 \<le> ?S" using nonneg by simp
  ultimately have "?S / 2 \<le> ?s1" "?S / 2 \<le> ?s2" by linarith+
  with pc s1 s2 show ?thesis by blast
qed

theorem partnership_cost_le_solo_cost_witness:
  "length [3, 3 :: rat] = length [5, 5 :: rat] \<and> length [2, 2 :: rat] = length [5, 5 :: rat] \<and>
   calculate_partnership_cost [3, 3] [2, 2] [5, 5] = Inr 2 \<and>
   (\<exists>pc s1 s2. calculate_partnership_cost [3, 3] [2, 2] [5, 5] = Inr pc \<and>
      calculate_solo_cost [3, 3] [5, 5] = Inr s1 \<and> calculate_solo_cost [2, 2] [5, 5] = Inr s2 \<and>
      pc \<le> s1 \<and> pc \<le> s2)"
proof -
  have "\<exists>pc s1 s2. calculate_partnership_cost [3, 3] [2, 2] [5, 5] = Inr pc \<and>
      calculate_solo_cost [3, 3] [5, 5] = Inr s1 \<and> calculate_solo_cost [2, 2] [5, 5] = Inr s2 \<and>
      pc \<le> s1 \<and> pc \<le> s2"
    by (rule partnership_cost_le_solo_cost) simp_all
  moreover have "calculate_partnership_cost [3, 3] [2, 2] [5, 5] = Inr 2"
    by (simp add: calculate_partnership_cost_def upt_rec)
  ultimately show ?thesis by simp
qed

section \<open>The shuffle is a permutation\<close>

lemma shuffle_loop_mset:
  "i < length x \<Longrightarrow> mset (fst (shuffle_loop i x g)) = mset x"
proof (induction i arbitrary: x g)
  case 0
  then show ?case by simp
next
  case (Suc i)
  let ?j = "g 0 mod (Suc i + 1)"
  have j: "?j < length x" using Suc.prems
    by (metis Suc_eq_plus1 less_Suc_eq_le mod_less_divisor order_less_le_trans zero_less_Suc Suc_leI)
  have "mset (x[Suc i := x ! ?j, ?j := x ! Suc i]) = mset x"
    using Suc.prems j by (simp add: mset_swap)
  moreover have "i < length (x[Suc i := x ! ?j, ?j := x ! Suc i])"
    using Suc.prems by simp
  ultimately show ?case
    using Suc.IH[of "x[Suc i := x ! ?j, ?j := x ! Suc i]" "\<lambda>k. g (Suc k)"]
    by (simp add: randbelow_def)
qed

lemma shuffle_mset: "mset (fst (shuffle x g)) = mset x"
proof (cases x)
  case Nil
  then show ?thesis by (simp add: shuffle_def)
next
  case (Cons a xs)
  then show ?thesis by (simp add: shuffle_def shuffle_loop_mset)
qed

lemma shuffle_set: "set (fst (shuffle x g)) = set x"
  by (metis shuffle_mset set_mset_mset)

lemma shuffle_length: "length (fst (shuffle x g)) = length x"
  by (metis shuffle_mset size_mset)

section \<open>Phase I of the heuristic module\<close>

lemma try_map_Inr_all2:
  "try_map f xs = Inr ys \<Longrightarrow> list_all2 (\<lambda>x y. f x = Inr y) xs ys"
  by (induction xs arbitrary: ys) (auto split: sum.splits)

lemma try_map_Inr_elem:
  assumes "try_map f xs = Inr ys" and "y \<in> set ys"
  shows "\<exists>x\<in>set xs. f x = Inr y"
  using assms by (induction xs arbitrary: ys) (auto split: sum.splits)

lemma consider_partner_elem:
  assumes "consider_partner player r task d partner = Inr ys" and "(pid, e, pr) \<in> set ys"
  shows "pid = member_id partner \<and> member_id partner \<noteq> member_id player \<and> r \<le> energy partner"
  using assms
  by (auto simp: consider_partner_def Let_def split: if_splits sum.splits)

lemma potential_partnerships_elem:
  assumes "potential_partnerships player c avg r = Inr ps"
    and "(t, pl) \<in> set ps" and "(pid, e, pr) \<in> set pl"
  shows "t < length (tasks c) \<and> pid \<noteq> member_id player \<and>
         (\<exists>m\<in>set (members c). member_id m = pid \<and> r \<le> energy m)"
proof -
  from assms(1,2) obtain it where it: "it \<in> set (enumerate 0 (tasks c))"
    and f: "(case it of (task_index, task) \<Rightarrow>
         case try_map (consider_partner player r task
                         (calculate_task_difficulty task avg)) (members c) of
           Inl e \<Rightarrow> Inl e
         | Inr found \<Rightarrow> Inr (task_index, concat found)) = Inr (t, pl)"
    unfolding potential_partnerships_def by (blast dest: try_map_Inr_elem)
  obtain ti task where [simp]: "it = (ti, task)" by (cases it)
  from f obtain found where found: "try_map (consider_partner player r task
                         (calculate_task_difficulty task avg)) (members c) = Inr found"
    and eq: "ti = t" "pl = concat found"
    by (auto split: sum.splits)
  from it eq have t: "t < length (tasks c)"
    by (auto simp: in_set_enumerate_eq)
  from assms(3) eq obtain ys where ys: "ys \<in> set found" "(pid, e, pr) \<in> set ys" by auto
  from try_map_Inr_elem[OF found ys(1)] obtain m where m: "m \<in> set (members c)"
    and cm: "consider_partner player r task (calculate_task_difficulty task avg) m = Inr ys"
    by blast
  from consider_partner_elem[OF cm ys(2)] m t show ?thesis by auto
qed

lemma best_options_elem:
  assumes "(t, pid) \<in> set (best_options ps)"
  shows "\<exists>pl e pr. (t, pl) \<in> set ps \<and> (pid, e, pr) \<in> set pl"
proof -
  from assms obtain ti pl where tp: "(ti, pl) \<in> set ps"
    and el: "(t, pid) \<in> set (if pl = [] then []
                else map (\<lambda>(partner_id, _, _). (ti, partner_id))
                       (take 2 (sort_key (\<lambda>x. - snd (snd x)) pl)))"
    unfolding best_options_def by auto
  from el obtain x where x: "x \<in> set (take 2 (sort_key (\<lambda>x. - snd (snd x)) pl))"
    and eq: "(t, pid) = (case x of (partner_id, _, _) \<Rightarrow> (ti, partner_id))"
    by (auto split: if_splits)
  from x have "x \<in> set pl" by (auto dest: in_set_takeD)
  moreover obtain a b c where "x = (a, b, c)" by (cases x)
  ultimately show ?thesis using eq tp by auto
qed

lemma get_community_stats_uniform:
  assumes "members c \<noteq> []" and "\<forall>m\<in>set (members c). length (abilities m) = d"
  shows "\<exists>avg. get_community_stats c =
           Inr (avg, (\<Sum>m\<leftarrow>members c. energy m) / of_nat (length (members c)))"
proof -
  from assms(1) obtain m0 ms where ms: "members c = m0 # ms" by (cases "members c") auto
  with assms(2) have "\<not> list_ex (\<lambda>m. length (abilities m0) < length (abilities m)) (members c)"
    by (auto simp: list_ex_iff)
  with ms show ?thesis
    by (simp add: get_community_stats_def Let_def)
qed

text \<open>
  C4. In a community with at least one member whose ability vectors all have the same
  length, a player whose energy is below \<open>max(2, 0.25 * average energy)\<close> gets the empty
  list from the heuristic \<^verbatim>\<open>phaseIpreferences\<close>, whatever the tasks, the members and
  the random source are.
\<close>

theorem depleted_player_no_phaseI_preferences:
  assumes "members c \<noteq> []"
    and "\<forall>m\<in>set (members c). length (abilities m) = d"
    and "energy player
           < max 2 ((\<Sum>m\<leftarrow>members c. energy m) / of_nat (length (members c)) * (1 / 4))"
  shows "team3_phaseIpreferences player c g = Inr []"
proof -
  from get_community_stats_uniform[OF assms(1,2)] obtain avg where
    "get_community_stats c = Inr (avg, (\<Sum>m\<leftarrow>members c. energy m) / of_nat (length (members c)))"
    by blast
  with assms(3) show ?thesis
    by (simp add: team3_phaseIpreferences_def)
qed

theorem depleted_player_no_phaseI_preferences_witness:
  "members \<lparr>members = [\<lparr>member_id = 1, abilities = [3, 3], energy = 1, incapacitated = False\<rparr>,
                        \<lparr>member_id = 2, abilities = [2, 2], energy = 10, incapacitated = False\<rparr>],
             tasks = [[5, 5]]\<rparr> \<noteq> [] \<and>
   (1 :: rat) < max 2 ((1 + 10) / 2 * (1 / 4)) \<and>
   team3_phaseIpreferences
     \<lparr>member_id = 1, abilities = [3, 3], energy = 1, incapacitated = False\<rparr>
     \<lparr>members = [\<lparr>member_id = 1, abilities = [3, 3], energy = 1, incapacitated = False\<rparr>,
                 \<lparr>member_id = 2, abilities = [2, 2], energy = 10, incapacitated = False\<rparr>],
      tasks = [[5, 5]]\<rparr> (\<lambda>_. 0) = Inr []"
proof -
  have "team3_phaseIpreferences
     \<lparr>member_id = 1, abilities = [3, 3], energy = 1, incapacitated = False\<rparr>
     \<lparr>members = [\<lparr>member_id = 1, abilities = [3, 3], energy = 1, incapacitated = False\<rparr>,
                 \<lparr>member_id = 2, abilities = [2, 2], energy = 10, incapacitated = False\<rparr>],
      tasks = [[5, 5]]\<rparr> (\<lambda>_. 0) = Inr []"
    by (rule depleted_player_no_phaseI_preferences[where d = 2]) simp_all
  then show ?thesis by simp
qed

text \<open>
  C6 (as amended). Every pair \<open>[task_index, partner_id]\<close> returned by the heuristic
  \<^verbatim>\<open>phaseIpreferences\<close> names a task of the community and a partner id that differs from
  the caller's id and is the id of a member whose energy is at least the minimum energy
  reserve \<open>max(1, min(3, 0.5 * len(tasks) / len(members)))\<close>, hence at least 1. The
  function reads the partner's energy; it does not read the incapacitation flag.
\<close>

theorem phaseI_partner_not_self_and_above_reserve:
  assumes "team3_phaseIpreferences player c g = Inr out" and "(t, pid) \<in> set out"
  shows "pid \<noteq> member_id player \<and> t < length (tasks c) \<and>
         (\<exists>m\<in>set (members c). member_id m = pid \<and> 1 \<le> energy m \<and>
            max 1 (min 3 (of_nat (length (tasks c)) / of_nat (length (members c)) * (1 / 2)))
              \<le> energy m)"
proof -
  let ?r = "max 1 (min 3 (of_nat (length (tasks c)) / of_nat (length (members c)) * (1 / 2))) :: rat"
  obtain avg avge where stats: "get_community_stats c = Inr (avg, avge)"
    using assms(1) by (cases "get_community_stats c") (auto simp: team3_phaseIpreferences_def)
  have ne: "\<not> energy player < max 2 (avge * (1 / 4))"
    using assms stats by (auto simp: team3_phaseIpreferences_def)
  obtain ps where
    pp: "potential_partnerships player c avg ?r = Inr ps"
    and out: "out = fst (shuffle (best_options ps) g)"
    using assms(1) stats ne
    by (cases "potential_partnerships player c avg ?r")
       (auto simp: team3_phaseIpreferences_def Let_def)
  from assms(2) out have "(t, pid) \<in> set (best_options ps)"
    by (simp add: shuffle_set)
  then obtain pl e pr where "(t, pl) \<in> set ps" "(pid, e, pr) \<in> set pl"
    by (blast dest: best_options_elem)
  from potential_partnerships_elem[OF pp this]
  obtain m where m: "t < length (tasks c)" "pid \<noteq> member_id player"
    "m \<in> set (members c)" "member_id m = pid" "?r \<le> energy m" by blast
  have "1 \<le> ?r" by simp
  from this m(5) have "1 \<le> energy m" by (rule order_trans)
  with m show ?thesis by blast
qed

theorem phaseI_partner_not_self_and_above_reserve_witness:
  "team3_phaseIpreferences
     \<lparr>member_id = 1, abilities = [3, 3], energy = 10, incapacitated = False\<rparr>
     \<lparr>members = [\<lparr>member_id = 1, abilities = [3, 3], energy = 10, incapacitated = False\<rparr>,
                 \<lparr>member_id = 2, abilities = [2, 2], energy = 10, incapacitated = False\<rparr>],
      tasks = [[5, 5]]\<rparr> (\<lambda>_. 0) = Inr [(0, 2)] \<and>
   (2 :: int) \<noteq> member_id \<lparr>member_id = 1, abilities = [3, 3], energy = 10, incapacitated = False\<rparr> \<and>
   (\<exists>m\<in>set [\<lparr>member_id = 1, abilities = [3, 3], energy = 10, incapacitated = False\<rparr>,
               \<lparr>member_id = 2, abilities = [2, 2], energy = 10, incapacitated = False\<rparr>].
      member_id m = 2 \<and> 1 \<le> energy m)"
proof -
  let ?p = "\<lparr>member_id = 1, abilities = [3, 3], energy = 10, incapacitated = False\<rparr>"
  let ?c = "\<lparr>members = [\<lparr>member_id = 1, abilities = [3, 3], energy = 10, incapacitated = False\<rparr>,
                 \<lparr>member_id = 2, abilities = [2, 2], energy = 10, incapacitated = False\<rparr>],
      tasks = [[5, 5]]\<rparr>"
  have run: "team3_phaseIpreferences ?p ?c (\<lambda>_. 0) = Inr [(0, 2)]"
    by code_simp
  have "2 \<noteq> member_id ?p \<and> 0 < length (tasks ?c) \<and>
         (\<exists>m\<in>set (members ?c). member_id m = 2 \<and> 1 \<le> energy m \<and>
            max 1 (min 3 (of_nat (length (tasks ?c)) / of_nat (length (members ?c)) * (1 / 2)))
              \<le> energy m)"
    by (rule phaseI_partner_not_self_and_above_reserve[OF run]) simp
  then have "2 \<noteq> member_id ?p" and "\<exists>m\<in>set (members ?c). member_id m = 2 \<and> 1 \<le> energy m"
    by blast+
  with run show ?thesis by simp
qed

text \<open>
  The claim as stated fails: the second member below has its incapacitation flag set and
  energy 10, and the caller's only preference names it as partner.
\<close>

theorem phaseI_incapacitated_partner_counterexample:
  "team3_phaseIpreferences
     \<lparr>member_id = 1, abilities = [3, 3], energy = 10, incapacitated = False\<rparr>
     \<lparr>members = [\<lparr>member_id = 1, abilities = [3, 3], energy = 10, incapacitated = False\<rparr>,
                 \<lparr>member_id = 2, abilities = [2, 2], energy = 10, incapacitated = True\<rparr>],
      tasks = [[5, 5]]\<rparr> (\<lambda>_. 0) = Inr [(0, 2)] \<and>
   member_id \<lparr>member_id = 2, abilities = [2, 2], energy = 10, incapacitated = True\<rparr> = 2 \<and>
   incapacitated \<lparr>member_id = 2, abilities = [2, 2], energy = 10, incapacitated = True\<rparr>"
proof -
  have "team3_phaseIpreferences
     \<lparr>member_id = 1, abilities = [3, 3], energy = 10, incapacitated = False\<rparr>
     \<lparr>members = [\<lparr>member_id = 1, abilities = [3, 3], energy = 10, incapacitated = False\<rparr>,
                 \<lparr>member_id = 2, abilities = [2, 2], energy = 10, incapacitated = True\<rparr>],
      tasks = [[5, 5]]\<rparr> (\<lambda>_. 0) = Inr [(0, 2)]"
    by code_simp
  then show ?thesis by simp
qed

section \<open>Phase II of the heuristic module: the final randomisation\<close>

lemma group_preserved:
  assumes len: "length G' = length G" and ms: "mset G' = mset G"
    and A: "length A = j * gs" and G: "length G = gs \<or> B = []" and Gle: "length G \<le> gs"
  shows "mset (take gs (drop (k * gs) (A @ G' @ B))) = mset (take gs (drop (k * gs) (A @ G @ B)))"
proof -
  consider "k < j" | "k = j" | "j < k" by linarith
  then show ?thesis
  proof cases
    case 1
    then have "Suc k \<le> j" by simp
    then have "Suc k * gs \<le> j * gs" by (rule mult_le_mono1)
    then have le: "k * gs + gs \<le> length A" using A by simp
    then show ?thesis by simp
  next
    case 2
    with A len have d: "drop (k * gs) (A @ G' @ B) = G' @ B" "drop (k * gs) (A @ G @ B) = G @ B"
      by simp_all
    from G show ?thesis
    proof
      assume "length G = gs"
      with len d ms show ?thesis by simp
    next
      assume "B = []"
      with len d ms Gle show ?thesis by simp
    qed
  next
    case 3
    then have "Suc j \<le> k" by simp
    then have "Suc j * gs \<le> k * gs" by (rule mult_le_mono1)
    with A have ge: "length A + gs \<le> k * gs" by simp
    from G show ?thesis
    proof
      assume g: "length G = gs"
      with len ge have "drop (k * gs) (A @ G' @ B) = drop (k * gs - length A - gs) B"
        "drop (k * gs) (A @ G @ B) = drop (k * gs - length A - gs) B"
        by simp_all
      then show ?thesis by simp
    next
      assume "B = []"
      with len ge Gle show ?thesis by simp
    qed
  qed
qed

lemma shuffle_group_at_groups:
  assumes "i = j * gs" and "i \<le> length xs"
  shows "length (fst (shuffle_group_at gs i (xs, g))) = length xs \<and>
         mset (take gs (drop (k * gs) (fst (shuffle_group_at gs i (xs, g)))))
           = mset (take gs (drop (k * gs) xs))"
proof -
  let ?A = "take i xs" and ?G = "take gs (drop i xs)" and ?B = "drop (i + gs) xs"
  let ?G' = "fst (shuffle ?G g)"
  have out: "fst (shuffle_group_at gs i (xs, g)) = ?A @ ?G' @ ?B"
    by (simp add: shuffle_group_at_def split: prod.splits)
  have xs: "xs = ?A @ ?G @ ?B"
    by (metis add.commute append_take_drop_id drop_drop)
  have len: "length ?G' = length ?G" by (rule shuffle_length)
  have ms: "mset ?G' = mset ?G" by (rule shuffle_mset)
  have A: "length ?A = j * gs" using assms by simp
  have G: "length ?G = gs \<or> ?B = []" by auto
  have Gle: "length ?G \<le> gs" by simp
  have "mset (take gs (drop (k * gs) (?A @ ?G' @ ?B))) = mset (take gs (drop (k * gs) (?A @ ?G @ ?B)))"
    using len ms A G Gle by (rule group_preserved)
  moreover have "length (?A @ ?G' @ ?B) = length (?A @ ?G @ ?B)"
    using len by simp
  ultimately show ?thesis using out xs by metis
qed

lemma fold_shuffle_group_at_groups:
  assumes "\<forall>j\<in>set js. j * gs \<le> length xs"
  shows "length (fst (fold (shuffle_group_at gs) (map (\<lambda>k. k * gs) js) (xs, g))) = length xs \<and>
         mset (take gs (drop (k * gs) (fst (fold (shuffle_group_at gs) (map (\<lambda>k. k * gs) js) (xs, g)))))
           = mset (take gs (drop (k * gs) xs))"
  using assms
proof (induction js arbitrary: xs g)
  case Nil
  then show ?case by simp
next
  case (Cons j js)
  obtain xs' g' where st: "shuffle_group_at gs (j * gs) (xs, g) = (xs', g')"
    by (cases "shuffle_group_at gs (j * gs) (xs, g)")
  have "j * gs \<le> length xs" using Cons.prems by simp
  from shuffle_group_at_groups[OF refl this, of g k] st
  have 1: "length xs' = length xs" "mset (take gs (drop (k * gs) xs')) = mset (take gs (drop (k * gs) xs))"
    by simp_all
  have "\<forall>j\<in>set js. j * gs \<le> length xs'" using Cons.prems 1 by simp
  from Cons.IH[OF this, of g'] 1 st show ?case by simp
qed

lemma shuffle_within_groups_groups:
  assumes "0 < gs"
  shows "length (fst (shuffle_within_groups gs xs g)) = length xs \<and>
         mset (take gs (drop (k * gs) (fst (shuffle_within_groups gs xs g))))
           = mset (take gs (drop (k * gs) xs))"
proof -
  have "\<forall>j\<in>set [0..<(length xs + gs - 1) div gs]. j * gs \<le> length xs"
  proof
    fix j assume "j \<in> set [0..<(length xs + gs - 1) div gs]"
    then have "j < (length xs + gs - 1) div gs" by simp
    then have "Suc j \<le> (length xs + gs - 1) div gs" by simp
    then have "Suc j * gs \<le> (length xs + gs - 1) div gs * gs" by (rule mult_le_mono1)
    also have "\<dots> \<le> length xs + gs - 1" by simp
    finally show "j * gs \<le> length xs" using assms by simp
  qed
  then show ?thesis
    unfolding shuffle_within_groups_def by (rule fold_shuffle_group_at_groups)
qed

lemma shuffle_group_at_mset:
  "mset (fst (shuffle_group_at gs i (xs, g))) = mset xs"
proof -
  let ?G' = "fst (shuffle (take gs (drop i xs)) g)"
  have out: "fst (shuffle_group_at gs i (xs, g)) = take i xs @ ?G' @ drop (i + gs) xs"
    by (simp add: shuffle_group_at_def split: prod.splits)
  have "mset (take i xs @ ?G' @ drop (i + gs) xs)
          = mset (take i xs @ take gs (drop i xs) @ drop (i + gs) xs)"
    by (simp add: shuffle_mset)
  also have "take i xs @ take gs (drop i xs) @ drop (i + gs) xs = xs"
    by (metis add.commute append_take_drop_id drop_drop)
  finally show ?thesis using out by simp
qed

lemma fold_shuffle_group_at_mset:
  "mset (fst (fold (shuffle_group_at gs) is (xs, g))) = mset xs"
proof (induction "is" arbitrary: xs g)
  case Nil
  then show ?case by simp
next
  case (Cons i "is")
  obtain xs' g' where st: "shuffle_group_at gs i (xs, g) = (xs', g')"
    by (cases "shuffle_group_at gs i (xs, g)")
  with shuffle_group_at_mset[of gs i xs g] have "mset xs' = mset xs" by simp
  with Cons.IH[of xs' g'] st show ?case by simp
qed

lemma shuffle_within_groups_mset:
  "mset (fst (shuffle_within_groups gs xs g)) = mset xs"
  unfolding shuffle_within_groups_def by (rule fold_shuffle_group_at_mset)

text \<open>
  C9 (as amended). The final randomisation of the heuristic \<^verbatim>\<open>phaseIIpreferences\<close> permutes
  the accepted, suitability-sorted list only within contiguous groups of size
  \<open>max(1, acceptedCount // 3)\<close>: the result has the length of the accepted list, and for
  every \<open>k\<close> the \<open>k\<close>-th group of that size holds the same task indices before and after,
  for every random source.
\<close>

theorem phaseII_shuffle_keeps_groups:
  assumes "team3_phaseIIpreferences player c g = Inr out"
  shows "\<exists>sel. selected_tasks_of player c = Inr sel \<and> length out = length sel \<and>
           mset (take (max 1 (length sel div 3)) (drop (k * max 1 (length sel div 3)) out))
             = mset (take (max 1 (length sel div 3)) (drop (k * max 1 (length sel div 3)) sel))"
proof -
  from assms obtain sel where sel: "selected_tasks_of player c = Inr sel"
    by (cases "selected_tasks_of player c") (auto simp: team3_phaseIIpreferences_def)
  show ?thesis
  proof (cases "sel = []")
    case True
    with assms sel show ?thesis by (simp add: team3_phaseIIpreferences_def)
  next
    case False
    let ?gs = "max 1 (length sel div 3)"
    from False assms sel have out: "out = fst (shuffle_within_groups ?gs sel g)"
      by (simp add: team3_phaseIIpreferences_def Let_def)
    have "0 < ?gs" by simp
    from shuffle_within_groups_groups[OF this, of sel g k] out sel show ?thesis by simp
  qed
qed

theorem phaseII_shuffle_keeps_groups_witness:
  "team3_phaseIIpreferences
     \<lparr>member_id = 1, abilities = [5], energy = 100, incapacitated = False\<rparr>
     \<lparr>members = [\<lparr>member_id = 1, abilities = [5], energy = 100, incapacitated = False\<rparr>],
      tasks = [[1], [1], [1], [1], [1], [1], [1]]\<rparr> (\<lambda>_. 0) = Inr [1, 0, 3, 2, 5, 4, 6] \<and>
   (\<exists>sel. selected_tasks_of
       \<lparr>member_id = 1, abilities = [5], energy = 100, incapacitated = False\<rparr>
       \<lparr>members = [\<lparr>member_id = 1, abilities = [5], energy = 100, incapacitated = False\<rparr>],
      tasks = [[1], [1], [1], [1], [1], [1], [1]]\<rparr> = Inr sel \<and>
     length [1, 0, 3, 2, 5, 4, 6 :: nat] = length sel \<and>
     mset (take (max 1 (length sel div 3)) (drop (1 * max 1 (length sel div 3)) [1, 0, 3, 2, 5, 4, 6]))
       = mset (take (max 1 (length sel div 3)) (drop (1 * max 1 (length sel div 3)) sel)))"
proof -
  have run: "team3_phaseIIpreferences
     \<lparr>member_id = 1, abilities = [5], energy = 100, incapacitated = False\<rparr>
     \<lparr>members = [\<lparr>member_id = 1, abilities = [5], energy = 100, incapacitated = False\<rparr>],
      tasks = [[1], [1], [1], [1], [1], [1], [1]]\<rparr> (\<lambda>_. 0) = Inr [1, 0, 3, 2, 5, 4, 6]"
    by code_simp
  from phaseII_shuffle_keeps_groups[OF run, of 1] run show ?thesis
    by (rule conjI[rotated])
qed

text \<open>
  The claim as stated fails: seven tasks are accepted in the order \<open>0, ..., 6\<close>, the source
  shuffles groups of two, and the first group of size \<open>\<lceil>7 / 3\<rceil> = 3\<close> holds 0, 1, 2 before
  and 1, 0, 3 after.
\<close>

theorem phaseII_shuffle_ceil_groups_counterexample:
  "selected_tasks_of
     \<lparr>member_id = 1, abilities = [5], energy = 100, incapacitated = False\<rparr>
     \<lparr>members = [\<lparr>member_id = 1, abilities = [5], energy = 100, incapacitated = False\<rparr>],
      tasks = [[1], [1], [1], [1], [1], [1], [1]]\<rparr> = Inr [0, 1, 2, 3, 4, 5, 6] \<and>
   team3_phaseIIpreferences
     \<lparr>member_id = 1, abilities = [5], energy = 100, incapacitated = False\<rparr>
     \<lparr>members = [\<lparr>member_id = 1, abilities = [5], energy = 100, incapacitated = False\<rparr>],
      tasks = [[1], [1], [1], [1], [1], [1], [1]]\<rparr> (\<lambda>_. 0) = Inr [1, 0, 3, 2, 5, 4, 6] \<and>
   spec_group_size 7 = 3 \<and>
   mset (take (spec_group_size 7) (drop (0 * spec_group_size 7) [1, 0, 3, 2, 5, 4, 6 :: nat]))
     \<noteq> mset (take (spec_group_size 7) (drop (0 * spec_group_size 7) [0, 1, 2, 3, 4, 5, 6]))"
proof -
  have "selected_tasks_of
     \<lparr>member_id = 1, abilities = [5], energy = 100, incapacitated = False\<rparr>
     \<lparr>members = [\<lparr>member_id = 1, abilities = [5], energy = 100, incapacitated = False\<rparr>],
      tasks = [[1], [1], [1], [1], [1], [1], [1]]\<rparr> = Inr [0, 1, 2, 3, 4, 5, 6]"
    by code_simp
  moreover have "team3_phaseIIpreferences
     \<lparr>member_id = 1, abilities = [5], energy = 100, incapacitated = False\<rparr>
     \<lparr>members = [\<lparr>member_id = 1, abilities = [5], energy = 100, incapacitated = False\<rparr>],
      tasks = [[1], [1], [1], [1], [1], [1], [1]]\<rparr> (\<lambda>_. 0) = Inr [1, 0, 3, 2, 5, 4, 6]"
    by code_simp
  moreover have s: "spec_group_size 7 = 3"
    by (simp add: spec_group_size_def)
  moreover have "mset (take (spec_group_size 7) (drop (0 * spec_group_size 7) [1, 0, 3, 2, 5, 4, 6 :: nat]))
     \<noteq> mset (take (spec_group_size 7) (drop (0 * spec_group_size 7) [0, 1, 2, 3, 4, 5, 6]))"
  proof
    assume "mset (take (spec_group_size 7) (drop (0 * spec_group_size 7) [1, 0, 3, 2, 5, 4, 6 :: nat]))
      = mset (take (spec_group_size 7) (drop (0 * spec_group_size 7) [0, 1, 2, 3, 4, 5, 6]))"
    then have "count (mset [1, 0, 3 :: nat]) 2 = count (mset [0, 1, 2 :: nat]) 2"
      by (simp add: s)
    then show False by simp
  qed
  ultimately show ?thesis by blast
qed

section \<open>Phase II of the heuristic module: cost ceiling and energy budget\<close>

lemma evaluate_task_suitability_cost:
  assumes "evaluate_task_suitability player task avg = Inr (s, cost)"
  shows "calculate_solo_cost (abilities player) task = Inr cost"
proof (cases "calculate_solo_cost (abilities player) task")
  case (Inl e)
  with assms show ?thesis by (simp add: evaluate_task_suitability_def)
next
  case (Inr x)
  with assms have "x = cost"
    by (simp add: evaluate_task_suitability_def Let_def split: if_splits)
  with Inr show ?thesis by simp
qed

lemma task_evaluations_elem:
  assumes "task_evaluations player c avg avail = Inr evs" and "(i, s, cost) \<in> set evs"
  shows "i < length (tasks c) \<and> calculate_solo_cost (abilities player) (tasks c ! i) = Inr cost \<and>
         cost \<le> energy player * (7 / 10) \<and> cost < avail"
proof -
  let ?f = "\<lambda>(i, task).
               case evaluate_task_suitability player task avg of
                 Inl e \<Rightarrow> Inl e
               | Inr (suitability, energy_cost) \<Rightarrow>
                   if energy_cost < avail \<and> suitability > 0
                      \<and> energy_cost \<le> energy player * (7 / 10)
                   then Inr [(i, suitability, energy_cost)]
                   else Inr []"
  from assms(1) obtain kept where kept: "try_map ?f (enumerate 0 (tasks c)) = Inr kept"
    and evs: "evs = concat kept"
    by (cases "try_map ?f (enumerate 0 (tasks c))") (auto simp: task_evaluations_def)
  from assms(2) evs obtain ys where ys: "ys \<in> set kept" "(i, s, cost) \<in> set ys" by auto
  from try_map_Inr_elem[OF kept ys(1)] obtain it where it: "it \<in> set (enumerate 0 (tasks c))"
    and f: "?f it = Inr ys" by blast
  obtain i' task where [simp]: "it = (i', task)" by (cases it)
  from it have i': "i' < length (tasks c)" "task = tasks c ! i'"
    by (auto simp: in_set_enumerate_eq)
  from f obtain s' cost' where ev: "evaluate_task_suitability player task avg = Inr (s', cost')"
    by (cases "evaluate_task_suitability player task avg") auto
  with f ys(2) have "i = i'" "cost = cost'" "cost' \<le> energy player * (7 / 10)" "cost' < avail"
    by (auto split: if_splits)
  with evaluate_task_suitability_cost[OF ev] i' show ?thesis by simp
qed

lemma accepted_evaluations_subset:
  "set (accepted_evaluations evs r m) \<subseteq> set evs"
  by (induction evs r m rule: accepted_evaluations.induct) auto

lemma accepted_evaluations_budget:
  assumes "m \<le> r" and "j < length (accepted_evaluations evs r m)"
  shows "m \<le> r - sum_list (take j (map (\<lambda>x. snd (snd x)) (accepted_evaluations evs r m)))"
  using assms
proof (induction evs r m arbitrary: j rule: accepted_evaluations.induct)
  case (1 r m)
  then show ?case by simp
next
  case (2 i s cost rest r m)
  show ?case
  proof (cases "cost \<le> r")
    case False
    with 2 show ?thesis by simp
  next
    case True
    show ?thesis
    proof (cases "r - cost < m")
      case stop: True
      with True 2 show ?thesis by simp
    next
      case False
      then have m: "m \<le> r - cost" by simp
      show ?thesis
      proof (cases j)
        case 0
        with "2.prems" show ?thesis by simp
      next
        case (Suc j')
        with "2.prems" True False have "j' < length (accepted_evaluations rest (r - cost) m)"
          by simp
        from "2.IH"(1)[OF True False m this] True False Suc show ?thesis
          by (simp add: algebra_simps)
      qed
    qed
  qed
qed

lemma selected_tasks_of_cases:
  assumes "selected_tasks_of player c = Inr sel"
  obtains (skip) rate where "get_task_completion_rate c = Inr rate" "sel = []"
  | (bid) avg rate evs where "get_task_completion_rate c = Inr rate"
      "min_energy_reserve_of rate * 2 \<le> energy player"
      "task_evaluations player c avg (energy player - min_energy_reserve_of rate) = Inr evs"
      "sel = select_tasks (sort_key (\<lambda>x. - fst (snd x)) evs)
               (energy player - min_energy_reserve_of rate) (min_energy_reserve_of rate)"
proof -
  from assms obtain avg where avg: "community_avg_abilities_of player c = Inr avg"
    by (cases "community_avg_abilities_of player c") (auto simp: selected_tasks_of_def)
  from assms avg obtain rate where rate: "get_task_completion_rate c = Inr rate"
    by (cases "get_task_completion_rate c") (auto simp: selected_tasks_of_def)
  show ?thesis
  proof (cases "energy player < min_energy_reserve_of rate * 2")
    case True
    with assms avg rate have "sel = []" by (simp add: selected_tasks_of_def Let_def)
    with rate show ?thesis by (rule skip)
  next
    case False
    with assms avg rate obtain evs where
      evs: "task_evaluations player c avg (energy player - min_energy_reserve_of rate) = Inr evs"
      by (cases "task_evaluations player c avg (energy player - min_energy_reserve_of rate)")
         (auto simp: selected_tasks_of_def Let_def)
    with assms avg rate False have
      "sel = select_tasks (sort_key (\<lambda>x. - fst (snd x)) evs)
               (energy player - min_energy_reserve_of rate) (min_energy_reserve_of rate)"
      by (simp add: selected_tasks_of_def Let_def)
    with rate False evs show ?thesis by (intro bid[of rate avg evs]) simp_all
  qed
qed

lemma selected_tasks_of_budget:
  assumes "selected_tasks_of player c = Inr sel"
  shows "\<exists>rate costs. get_task_completion_rate c = Inr rate \<and>
           map (\<lambda>i. calculate_solo_cost (abilities player) (tasks c ! i)) sel = map Inr costs \<and>
           (\<forall>i\<in>set sel. i < length (tasks c)) \<and>
           (\<forall>x\<in>set costs. x \<le> energy player * (7 / 10)) \<and>
           (\<forall>j<length sel. min_energy_reserve_of rate
                \<le> energy player - min_energy_reserve_of rate - sum_list (take j costs))"
  using assms
proof (cases rule: selected_tasks_of_cases)
  case (skip rate)
  then show ?thesis by simp
next
  case (bid avg rate evs)
  let ?m = "min_energy_reserve_of rate"
  let ?r = "energy player - ?m"
  let ?acc = "accepted_evaluations (sort_key (\<lambda>x. - fst (snd x)) evs) ?r ?m"
  let ?costs = "map (\<lambda>x. snd (snd x)) ?acc"
  have sel: "sel = map fst ?acc" using bid(4) by (simp add: select_tasks_def)
  have elem: "i < length (tasks c) \<and>
      calculate_solo_cost (abilities player) (tasks c ! i) = Inr cost \<and>
      cost \<le> energy player * (7 / 10)" if "(i, s, cost) \<in> set ?acc" for i s cost
  proof -
    from that accepted_evaluations_subset have "(i, s, cost) \<in> set (sort_key (\<lambda>x. - fst (snd x)) evs)"
      by blast
    then have "(i, s, cost) \<in> set evs" by simp
    from task_evaluations_elem[OF bid(3) this] show ?thesis by simp
  qed
  have "map (\<lambda>i. calculate_solo_cost (abilities player) (tasks c ! i)) sel = map Inr ?costs"
    unfolding sel map_map
  proof (rule map_cong[OF refl])
    fix x assume "x \<in> set ?acc"
    moreover obtain i s cost where "x = (i, s, cost)" by (cases x)
    ultimately show "((\<lambda>i. calculate_solo_cost (abilities player) (tasks c ! i)) \<circ> fst) x
                       = (Inr \<circ> (\<lambda>x. snd (snd x))) x"
      using elem by simp
  qed
  moreover have "\<forall>i\<in>set sel. i < length (tasks c)"
    unfolding sel using elem by auto
  moreover have "\<forall>x\<in>set ?costs. x \<le> energy player * (7 / 10)"
    using elem by auto
  moreover have "\<forall>j<length sel. ?m \<le> ?r - sum_list (take j ?costs)"
  proof (intro allI impI)
    fix j assume "j < length sel"
    then have j: "j < length ?acc" by (simp add: sel)
    have "?m \<le> ?r" using bid(2) by simp
    from this j show "?m \<le> ?r - sum_list (take j ?costs)"
      by (rule accepted_evaluations_budget)
  qed
  ultimately show ?thesis using bid(1) by blast
qed

lemma phaseII_out_mset:
  assumes "team3_phaseIIpreferences player c g = Inr out"
  shows "\<exists>sel. selected_tasks_of player c = Inr sel \<and> mset out = mset sel"
proof -
  from assms obtain sel where sel: "selected_tasks_of player c = Inr sel"
    by (cases "selected_tasks_of player c") (auto simp: team3_phaseIIpreferences_def)
  have "mset out = mset sel"
  proof (cases "sel = []")
    case True
    with assms sel show ?thesis by (simp add: team3_phaseIIpreferences_def)
  next
    case False
    with assms sel have "out = fst (shuffle_within_groups (max 1 (length sel div 3)) sel g)"
      by (simp add: team3_phaseIIpreferences_def Let_def)
    then show ?thesis by (simp only: shuffle_within_groups_mset)
  qed
  with sel show ?thesis by blast
qed

text \<open>
  C5. When the heuristic \<^verbatim>\<open>phaseIIpreferences\<close> returns a list, every task index in it is an
  index of the community's task list whose solo cost for the player is at most 70 percent
  of the player's energy. The returned list is a rearrangement of the greedily accepted list
  \<^verbatim>\<open>selected_tasks\<close>, and before each accepted item (so in particular before the last one)
  the running budget, energy minus reserve minus the costs of the items accepted so far, is
  still at least the reserve.
\<close>

theorem phaseII_cost_ceiling_and_budget:
  assumes "team3_phaseIIpreferences player c g = Inr out"
  shows "(\<forall>i\<in>set out. i < length (tasks c) \<and>
            (\<exists>cost. calculate_solo_cost (abilities player) (tasks c ! i) = Inr cost \<and>
                    cost \<le> energy player * (7 / 10))) \<and>
         (\<exists>rate sel costs. get_task_completion_rate c = Inr rate \<and>
            selected_tasks_of player c = Inr sel \<and> mset out = mset sel \<and>
            map (\<lambda>i. calculate_solo_cost (abilities player) (tasks c ! i)) sel = map Inr costs \<and>
            (\<forall>j<length sel. min_energy_reserve_of rate
                 \<le> energy player - min_energy_reserve_of rate - sum_list (take j costs)))"
proof -
  from phaseII_out_mset[OF assms] obtain sel where
    sel: "selected_tasks_of player c = Inr sel" and ms: "mset out = mset sel" by blast
  from selected_tasks_of_budget[OF sel] obtain rate costs where
    rate: "get_task_completion_rate c = Inr rate"
    and costs: "map (\<lambda>i. calculate_solo_cost (abilities player) (tasks c ! i)) sel = map Inr costs"
    and idx: "\<forall>i\<in>set sel. i < length (tasks c)"
    and ceil: "\<forall>x\<in>set costs. x \<le> energy player * (7 / 10)"
    and budget: "\<forall>j<length sel. min_energy_reserve_of rate
                \<le> energy player - min_energy_reserve_of rate - sum_list (take j costs)"
    by blast
  have len: "length costs = length sel"
    using costs by (metis length_map)
  have "i < length (tasks c) \<and>
            (\<exists>cost. calculate_solo_cost (abilities player) (tasks c ! i) = Inr cost \<and>
                    cost \<le> energy player * (7 / 10))" if "i \<in> set out" for i
  proof -
    from that ms have "i \<in> set sel" by (metis set_mset_mset)
    then obtain n where n: "n < length sel" "sel ! n = i" by (auto simp: in_set_conv_nth)
    with costs have "calculate_solo_cost (abilities player) (tasks c ! i) = Inr (costs ! n)"
      by (metis len nth_map)
    moreover have "costs ! n \<le> energy player * (7 / 10)"
      using ceil n len by simp
    moreover have "i < length (tasks c)" using idx \<open>i \<in> set sel\<close> by blast
    ultimately show ?thesis by blast
  qed
  with rate sel ms costs budget show ?thesis by blast
qed

theorem phaseII_cost_ceiling_and_budget_witness:
  "team3_phaseIIpreferences
     \<lparr>member_id = 1, abilities = [3, 3], energy = 10, incapacitated = False\<rparr>
     \<lparr>members = [\<lparr>member_id = 1, abilities = [3, 3], energy = 10, incapacitated = False\<rparr>],
      tasks = [[4, 3], [5, 5], [3, 3]]\<rparr> (\<lambda>_. 0) = Inr [2, 0, 1] \<and>
   (\<exists>cost. calculate_solo_cost [3, 3] [5, 5] = Inr cost \<and> cost \<le> 10 * (7 / 10)) \<and>
   (\<exists>rate sel costs. get_task_completion_rate
        \<lparr>members = [\<lparr>member_id = 1, abilities = [3, 3], energy = 10, incapacitated = False\<rparr>],
      tasks = [[4, 3], [5, 5], [3, 3]]\<rparr> = Inr rate \<and>
      selected_tasks_of
        \<lparr>member_id = 1, abilities = [3, 3], energy = 10, incapacitated = False\<rparr>
        \<lparr>members = [\<lparr>member_id = 1, abilities = [3, 3], energy = 10, incapacitated = False\<rparr>],
      tasks = [[4, 3], [5, 5], [3, 3]]\<rparr> = Inr sel \<and>
      mset [2, 0, 1] = mset sel \<and>
      map (\<lambda>i. calculate_solo_cost [3, 3] ([[4, 3], [5, 5], [3, 3]] ! i)) sel = map Inr costs \<and>
      (\<forall>j<length sel. min_energy_reserve_of rate
           \<le> 10 - min_energy_reserve_of rate - sum_list (take j costs)))"
proof -
  let ?p = "\<lparr>member_id = 1, abilities = [3, 3], energy = 10, incapacitated = False\<rparr>"
  let ?c = "\<lparr>members = [\<lparr>member_id = 1, abilities = [3, 3], energy = 10, incapacitated = False\<rparr>],
      tasks = [[4, 3], [5, 5], [3, 3]]\<rparr>"
  have run: "team3_phaseIIpreferences ?p ?c (\<lambda>_. 0) = Inr [2, 0, 1]"
    by code_simp
  note both = phaseII_cost_ceiling_and_budget[OF run]
  from both have "\<forall>i\<in>set [2, 0, 1]. i < length (tasks ?c) \<and>
            (\<exists>cost. calculate_solo_cost (abilities ?p) (tasks ?c ! i) = Inr cost \<and>
                    cost \<le> energy ?p * (7 / 10))"
    by (rule conjunct1)
  then have "\<exists>cost. calculate_solo_cost (abilities ?p) (tasks ?c ! 1) = Inr cost \<and>
                    cost \<le> energy ?p * (7 / 10)"
    by simp
  then have a: "\<exists>cost. calculate_solo_cost [3, 3] [5, 5] = Inr cost \<and> cost \<le> 10 * (7 / 10)"
    by simp
  from both have "\<exists>rate sel costs. get_task_completion_rate ?c = Inr rate \<and>
            selected_tasks_of ?p ?c = Inr sel \<and> mset [2, 0, 1] = mset sel \<and>
            map (\<lambda>i. calculate_solo_cost (abilities ?p) (tasks ?c ! i)) sel = map Inr costs \<and>
            (\<forall>j<length sel. min_energy_reserve_of rate
                 \<le> energy ?p - min_energy_reserve_of rate - sum_list (take j costs))"
    by (rule conjunct2)
  then have b: "\<exists>rate sel costs. get_task_completion_rate ?c = Inr rate \<and>
      selected_tasks_of ?p ?c = Inr sel \<and>
      mset [2, 0, 1] = mset sel \<and>
      map (\<lambda>i. calculate_solo_cost [3, 3] ([[4, 3], [5, 5], [3, 3]] ! i)) sel = map Inr costs \<and>
      (\<forall>j<length sel. min_energy_reserve_of rate
           \<le> 10 - min_energy_reserve_of rate - sum_list (take j costs))"
    by simp
  from run a b show ?thesis by (intro conjI)
qed

text \<open>
  C1 (the heuristic module's part). \<^verbatim>\<open>phaseIIpreferences\<close> of the heuristic module has no
  exception handler, and for a task whose difficulty vector is all zeros
  \<^verbatim>\<open>evaluate_task_suitability\<close> divides by the number of non-zero difficulties: the call
  raises ZeroDivisionError.
\<close>

theorem phaseII_all_zero_task_raises:
  "team3_phaseIIpreferences
     \<lparr>member_id = 1, abilities = [1], energy = 10, incapacitated = False\<rparr>
     \<lparr>members = [\<lparr>member_id = 1, abilities = [1], energy = 10, incapacitated = False\<rparr>],
      tasks = [[0]]\<rparr> g = Inl ZeroDivisionError"
  by (simp add: team3_phaseIIpreferences_def selected_tasks_of_def community_avg_abilities_of_def
      get_task_completion_rate_def min_energy_reserve_of_def task_evaluations_def
      evaluate_task_suitability_def calculate_solo_cost_def enumerate_eq_zip)

section \<open>The loss of a partnership in the optimal-assignment module\<close>

lemma elementwiseMax_nth:
  "i < length a1 \<Longrightarrow> i < length a2 \<Longrightarrow> elementwiseMax a1 a2 ! i = max (a1 ! i) (a2 ! i)"
  by (simp add: elementwiseMax_def)

lemma soloCost_elementwiseMax:
  assumes "length task \<le> length a1" "length task \<le> length a2"
  shows "soloCost task (elementwiseMax a1 a2)
           = (\<Sum>k\<leftarrow>[0..<length task]. max (task ! k - max (a1 ! k) (a2 ! k)) 0)"
  unfolding soloCost_def
  by (rule arg_cong[where f = sum_list], rule map_cong[OF refl])
     (use assms in \<open>simp add: elementwiseMax_nth\<close>)

lemma overshoot_penalty_eq:
  assumes "length task \<le> length a1" "length task \<le> length a2"
  shows "overshoot_penalty task a1 a2
           = (\<Sum>k\<leftarrow>[0..<length task]. max (max (a1 ! k) (a2 ! k) - task ! k) 0)"
  unfolding overshoot_penalty_def
  by (rule arg_cong[where f = sum_list], rule map_cong[OF refl])
     (use assms in \<open>simp add: elementwiseMax_nth\<close>)

text \<open>
  C2 (as amended). For a task and two players whose ability vectors have the task's length,
  \<^verbatim>\<open>loss_phase1\<close> is the undivided unmet difficulty of the pair, that is
  \<open>soloCost(task, elementwiseMax(a1, a2))\<close> or twice the partnership cost, plus half of the
  amount by which that undivided cost exceeds the two energies together (clamped at 0), plus
  the overshoot penalty, plus the mismatch penalty.
\<close>

theorem loss_phase1_decomposition:
  assumes "length (abilities player1) = length task" and "length (abilities player2) = length task"
  shows "loss_phase1 task player1 player2 =
           Inr (2 * partnershipCost task (abilities player1) (abilities player2)
                + max 0 (2 * partnershipCost task (abilities player1) (abilities player2)
                           - (energy player1 + energy player2)) / 2
                + overshoot_penalty task (abilities player1) (abilities player2)
                + mismatch_penalty task (abilities player1) (abilities player2))"
proof -
  have 1: "2 * partnershipCost task (abilities player1) (abilities player2)
        = (\<Sum>k\<leftarrow>[0..<length task].
              max (task ! k - max (abilities player1 ! k) (abilities player2 ! k)) 0)"
    using assms by (simp add: partnershipCost_def soloCost_elementwiseMax)
  have 2: "overshoot_penalty task (abilities player1) (abilities player2)
        = (\<Sum>k\<leftarrow>[0..<length task].
              max (max (abilities player1 ! k) (abilities player2 ! k) - task ! k) 0)"
    using assms by (simp add: overshoot_penalty_eq)
  show ?thesis
    unfolding 1 2 mismatch_penalty_def
    using assms by (simp add: loss_phase1_def Let_def algebra_simps)
qed


theorem loss_phase1_decomposition_witness:
  "length (abilities \<lparr>member_id = 1, abilities = [1, 6], energy = 2, incapacitated = False\<rparr>)
     = length [8, 4 :: rat] \<and>
   length (abilities \<lparr>member_id = 2, abilities = [2, 3], energy = 1, incapacitated = False\<rparr>)
     = length [8, 4 :: rat] \<and>
   partnershipCost [8, 4] [1, 6] [2, 3] = 3 \<and>
   loss_phase1 [8, 4]
     \<lparr>member_id = 1, abilities = [1, 6], energy = 2, incapacitated = False\<rparr>
     \<lparr>member_id = 2, abilities = [2, 3], energy = 1, incapacitated = False\<rparr>
     = Inr (2 * 3 + max 0 (2 * 3 - (2 + 1)) / 2 + 2 + 4)"
proof -
  have pc: "partnershipCost [8, 4] [1, 6] [2, 3] = 3"
    by (simp add: partnershipCost_def soloCost_def elementwiseMax_def)
  have op: "overshoot_penalty [8, 4] [1, 6] [2, 3] = 2"
    by (simp add: overshoot_penalty_def elementwiseMax_def)
  have mp: "mismatch_penalty [8, 4] [1, 6] [2, 3] = 4"
    by (simp add: mismatch_penalty_def)
  have "loss_phase1 [8, 4]
     \<lparr>member_id = 1, abilities = [1, 6], energy = 2, incapacitated = False\<rparr>
     \<lparr>member_id = 2, abilities = [2, 3], energy = 1, incapacitated = False\<rparr>
     = Inr (2 * partnershipCost [8, 4] [1, 6] [2, 3]
            + max 0 (2 * partnershipCost [8, 4] [1, 6] [2, 3] - (2 + 1)) / 2
            + overshoot_penalty [8, 4] [1, 6] [2, 3] + mismatch_penalty [8, 4] [1, 6] [2, 3])"
    using loss_phase1_decomposition[of
        "\<lparr>member_id = 1, abilities = [1, 6], energy = 2, incapacitated = False\<rparr>" "[8, 4]"
        "\<lparr>member_id = 2, abilities = [2, 3], energy = 1, incapacitated = False\<rparr>"]
    by simp
  then show ?thesis unfolding pc op mp by simp
qed

text \<open>
  The claim as stated fails: for the task \<open>[2]\<close> and two players of ability \<open>[0]\<close> and energy
  10, the partnership cost is 1 and all three penalties are 0 (the energies exceed the cost,
  divided or not), and \<^verbatim>\<open>loss_phase1\<close> returns 2.
\<close>

theorem loss_phase1_not_partnership_cost_counterexample:
  "loss_phase1 [2]
     \<lparr>member_id = 1, abilities = [0], energy = 10, incapacitated = False\<rparr>
     \<lparr>member_id = 2, abilities = [0], energy = 10, incapacitated = False\<rparr> = Inr 2 \<and>
   partnershipCost [2] [0] [0] = 1 \<and>
   richLoss [2] [0] [0] 10 10 = 1 \<and>
   loss_phase1 [2]
     \<lparr>member_id = 1, abilities = [0], energy = 10, incapacitated = False\<rparr>
     \<lparr>member_id = 2, abilities = [0], energy = 10, incapacitated = False\<rparr>
     \<noteq> Inr (richLoss [2] [0] [0] 10 10)"
  by (simp add: loss_phase1_def richLoss_def partnershipCost_def soloCost_def elementwiseMax_def
        overshoot_penalty_def mismatch_penalty_def)

text \<open>
  C10. \<^verbatim>\<open>phaseIpreferences\<close> of the optimal-assignment module returns the empty list for
  every player, community and random source: the matching and its decoding are guarded by
  \<^verbatim>\<open>PHASE_1_ASSIGNMENTS\<close>, which is \<^verbatim>\<open>False\<close>.
\<close>

theorem optimal_phaseI_returns_nothing:
  "team6_phaseIpreferences player c global_random = []"
  by (simp add: team6_phaseIpreferences_def PHASE_1_ASSIGNMENTS_def)

section \<open>Optimality of the assignment\<close>

lemma injections_length: "xs \<in> set (injections n cols) \<Longrightarrow> length xs = n"
  by (induction n arbitrary: xs cols) auto

lemma injections_complete:
  assumes "length xs = n" and "distinct xs" and "set xs \<subseteq> set cols"
  shows "xs \<in> set (injections n cols)"
  using assms
proof (induction n arbitrary: xs cols)
  case 0
  then show ?case by simp
next
  case (Suc n)
  from Suc.prems(1) obtain c rest where xs: "xs = c # rest" by (cases xs) auto
  with Suc.prems have c: "c \<in> set cols" and rest: "length rest = n" "distinct rest"
    and notin: "c \<notin> set rest" and sub: "set rest \<subseteq> set cols" by auto
  have "set rest \<subseteq> set (remove1 c cols)"
  proof
    fix y assume y: "y \<in> set rest"
    with notin have "y \<noteq> c" by auto
    with y sub show "y \<in> set (remove1 c cols)" by (auto simp: in_set_remove1)
  qed
  with Suc.IH[OF rest] have "rest \<in> set (injections n (remove1 c cols))" by simp
  with c xs show ?case by auto
qed

lemma fold_least_le:
  fixes f :: "'a \<Rightarrow> rat"
  shows "f (fold (\<lambda>y best. if f y < f best then y else best) xs x) \<le> f x \<and>
         (\<forall>y\<in>set xs. f (fold (\<lambda>y best. if f y < f best then y else best) xs x) \<le> f y)"
proof (induction xs arbitrary: x)
  case Nil
  then show ?case by simp
next
  case (Cons a xs)
  let ?x' = "if f a < f x then a else x"
  from Cons.IH[of ?x'] have
    1: "f (fold (\<lambda>y best. if f y < f best then y else best) xs ?x') \<le> f ?x'"
    and 2: "\<forall>y\<in>set xs. f (fold (\<lambda>y best. if f y < f best then y else best) xs ?x') \<le> f y"
    by blast+
  have "f ?x' \<le> f x" "f ?x' \<le> f a" by auto
  with 1 have "f (fold (\<lambda>y best. if f y < f best then y else best) xs ?x') \<le> f x"
    "f (fold (\<lambda>y best. if f y < f best then y else best) xs ?x') \<le> f a"
    by linarith+
  with 2 show ?case by simp
qed

lemma least_by_le:
  "y \<in> set (x # xs) \<Longrightarrow> f (least_by f x xs) \<le> f y"
  using fold_least_le[of f xs x] by (auto simp: least_by_def)

lemma fold_least_in:
  "fold (\<lambda>y best. if f y < f best then y else best) xs x \<in> set (x # xs)"
proof (induction xs arbitrary: x)
  case Nil
  then show ?case by simp
next
  case (Cons a xs)
  from Cons.IH[of "if f a < f x then a else x"] show ?case
    by (auto split: if_splits)
qed

lemma least_by_in: "least_by f x xs \<in> set (x # xs)"
  using fold_least_in[of f xs x] by (simp add: least_by_def)

lemma try_map_total:
  assumes "\<forall>x\<in>set xs. \<exists>y. f x = Inr y"
  shows "\<exists>ys. try_map f xs = Inr ys \<and> length ys = length xs"
  using assms
proof (induction xs)
  case Nil
  then show ?case by simp
next
  case (Cons x xs)
  then obtain y ys where "f x = Inr y" "try_map f xs = Inr ys" "length ys = length xs" by auto
  then show ?case by simp
qed

lemma all_partnerships_bounds:
  "(a, b) \<in> set (all_partnerships n) \<Longrightarrow> a < n \<and> b < n"
  by (auto simp: all_partnerships_def)

lemma phase1_cost_matrix_total:
  assumes wf_m: "\<forall>m\<in>set member_list. length (abilities m) = d"
    and wf_t: "\<forall>t\<in>set task_list. length t = d"
  shows "\<exists>cost_matrix. phase1_cost_matrix task_list member_list = Inr cost_matrix \<and>
           length cost_matrix = length task_list"
proof -
  let ?row1 = "\<lambda>task. try_map (\<lambda>(member1_idx, member2_idx).
                       loss_phase1 task (member_list ! member1_idx) (member_list ! member2_idx))
                     (all_partnerships (length member_list))"
  let ?row2 = "\<lambda>task. try_map (\<lambda>m. loss_phase2 task (abilities m) (energy m)) member_list"
  have "\<forall>task\<in>set task_list. \<exists>row. ?row1 task = Inr row"
  proof
    fix task assume t: "task \<in> set task_list"
    have "\<forall>x\<in>set (all_partnerships (length member_list)).
            \<exists>y. (case x of (member1_idx, member2_idx) \<Rightarrow>
                    loss_phase1 task (member_list ! member1_idx) (member_list ! member2_idx)) = Inr y"
    proof
      fix x assume x: "x \<in> set (all_partnerships (length member_list))"
      obtain a b where [simp]: "x = (a, b)" by (cases x)
      from x have "a < length member_list" "b < length member_list"
        by (auto dest: all_partnerships_bounds)
      then have "member_list ! a \<in> set member_list" "member_list ! b \<in> set member_list"
        by simp_all
      with wf_m wf_t t have "length (abilities (member_list ! a)) = length task"
        "length (abilities (member_list ! b)) = length task" by auto
      then show "\<exists>y. (case x of (member1_idx, member2_idx) \<Rightarrow>
                    loss_phase1 task (member_list ! member1_idx) (member_list ! member2_idx)) = Inr y"
        by (simp add: loss_phase1_def Let_def)
    qed
    from try_map_total[OF this] show "\<exists>row. ?row1 task = Inr row" by blast
  qed
  from try_map_total[OF this] obtain pc where
    pc: "try_map ?row1 task_list = Inr pc" "length pc = length task_list" by blast
  have "\<forall>task\<in>set task_list. \<exists>row. ?row2 task = Inr row"
  proof
    fix task assume t: "task \<in> set task_list"
    have "\<forall>m\<in>set member_list. \<exists>y. loss_phase2 task (abilities m) (energy m) = Inr y"
      using wf_m wf_t t by (auto simp: loss_phase2_def Let_def)
    from try_map_total[OF this] show "\<exists>row. ?row2 task = Inr row" by blast
  qed
  from try_map_total[OF this] obtain ic where
    ic: "try_map ?row2 task_list = Inr ic" "length ic = length task_list" by blast
  from pc ic show ?thesis by (simp add: phase1_cost_matrix_def)
qed

lemma injections_sound:
  assumes "xs \<in> set (injections n cols)" and "distinct cols"
  shows "distinct xs \<and> set xs \<subseteq> set cols"
  using assms
proof (induction n arbitrary: xs cols)
  case 0
  then show ?case by simp
next
  case (Suc n)
  from Suc.prems(1) obtain c rest where xs: "xs = c # rest" and c: "c \<in> set cols"
    and rest: "rest \<in> set (injections n (remove1 c cols))" by auto
  from Suc.prems(2) have d: "distinct (remove1 c cols)" by simp
  from Suc.IH[OF rest d] have r: "distinct rest" "set rest \<subseteq> set (remove1 c cols)" by simp_all
  from Suc.prems(2) have "set (remove1 c cols) = set cols - {c}" by simp
  with r c xs show ?case by auto
qed

lemma zip_upt_nth:
  "length ys = n \<Longrightarrow> zip [0..<n] ys = map (\<lambda>i. (i, ys ! i)) [0..<n]"
  by (rule nth_equalityI) simp_all

lemma linear_sum_assignment_min_matching:
  assumes len: "length cs = length M" and dist: "distinct cs" and bound: "\<forall>c\<in>set cs. c < ncols"
  shows "\<exists>cols. linear_sum_assignment ncols M = ([0..<length M], cols) \<and>
           length cols = length M \<and> distinct cols \<and> (\<forall>c\<in>set cols. c < ncols) \<and>
           assignment_cost M cols \<le> assignment_cost M cs"
proof -
  from bound have sub: "set cs \<subseteq> set [0..<ncols]" by auto
  have "length cs = card (set cs)" using dist by (simp add: distinct_card)
  also have "\<dots> \<le> card (set [0..<ncols])" using sub by (intro card_mono) auto
  finally have le: "length M \<le> ncols" using len by simp
  from injections_complete[OF len dist sub] have mem: "cs \<in> set (injections (length M) [0..<ncols])" .
  then obtain cand cands where inj: "injections (length M) [0..<ncols] = cand # cands"
    by (cases "injections (length M) [0..<ncols]") auto
  let ?best = "least_by (assignment_cost M) cand cands"
  have res: "linear_sum_assignment ncols M = ([0..<length M], ?best)"
    using le inj by (simp add: linear_sum_assignment_def Let_def)
  have "?best \<in> set (cand # cands)" by (rule least_by_in)
  with inj have best: "?best \<in> set (injections (length M) [0..<ncols])" by simp
  then have "length ?best = length M" by (rule injections_length)
  moreover from injections_sound[OF best] have "distinct ?best" "\<forall>c\<in>set ?best. c < ncols"
    by auto
  moreover have "assignment_cost M ?best \<le> assignment_cost M cs"
    using mem inj by (intro least_by_le) simp
  ultimately show ?thesis using res by blast
qed

text \<open>
  C3. For tasks and members whose vectors all have one length, \<^verbatim>\<open>assign_phase1\<close> returns
  the decoding of a matching that gives every task a column of its own in the tasks by
  (partnerships and individuals) cost matrix: \<open>cols ! i\<close> is the column of task \<open>i\<close>, the
  \<open>i\<close>-th assignment holds the ids of that column, the task and the matched cell, and the
  total cost is the sum of the matched cells. That total is at most the total cost of every
  assignment that gives each task a column of its own. This holds for every number of tasks
  and members, in particular for at most 4 of each.
\<close>

theorem assign_phase1_total_cost_minimal:
  assumes wf_m: "\<forall>m\<in>set member_list. length (abilities m) = d"
    and wf_t: "\<forall>t\<in>set task_list. length t = d"
    and len: "length col_of_task = length task_list"
    and dist: "distinct col_of_task"
    and bound: "\<forall>c\<in>set col_of_task.
                  c < length (all_partnerships (length member_list)) + length member_list"
  shows "\<exists>assignments total_cost cost_matrix cols.
           assign_phase1 task_list member_list = Inr (assignments, total_cost) \<and>
           phase1_cost_matrix task_list member_list = Inr cost_matrix \<and>
           length cols = length task_list \<and> distinct cols \<and>
           (\<forall>c\<in>set cols. c < length (all_partnerships (length member_list)) + length member_list) \<and>
           assignments =
             map (\<lambda>i. if cols ! i < length (all_partnerships (length member_list))
                       then (case all_partnerships (length member_list) ! (cols ! i) of
                               (member1_idx, member2_idx) \<Rightarrow>
                                 ([member_id (member_list ! member1_idx),
                                   member_id (member_list ! member2_idx)],
                                  task_list ! i, cost_matrix ! i ! (cols ! i)))
                       else ([member_id (member_list
                                  ! (cols ! i - length (all_partnerships (length member_list))))],
                             task_list ! i, cost_matrix ! i ! (cols ! i)))
               [0..<length task_list] \<and>
           total_cost = (\<Sum>i\<leftarrow>[0..<length task_list]. cost_matrix ! i ! (cols ! i)) \<and>
           total_cost \<le> (\<Sum>i\<leftarrow>[0..<length task_list]. cost_matrix ! i ! (col_of_task ! i))"
proof -
  from phase1_cost_matrix_total[OF wf_m wf_t] obtain M where
    M: "phase1_cost_matrix task_list member_list = Inr M" "length M = length task_list" by blast
  let ?np = "length (all_partnerships (length member_list))"
  let ?ncols = "?np + length member_list"
  let ?n = "length task_list"
  from len M(2) have len': "length col_of_task = length M" by simp
  from linear_sum_assignment_min_matching[OF len' dist bound] obtain cols where
    lsa: "linear_sum_assignment ?ncols M = ([0..<?n], cols)"
    and lc: "length cols = ?n" and dc: "distinct cols" and bc: "\<forall>c\<in>set cols. c < ?ncols"
    and opt: "assignment_cost M cols \<le> assignment_cost M col_of_task"
    unfolding M(2) by blast
  let ?decode = "\<lambda>(task_idx, col_idx).
                   if col_idx < ?np
                   then (case all_partnerships (length member_list) ! col_idx of
                           (member1_idx, member2_idx) \<Rightarrow>
                             ([member_id (member_list ! member1_idx),
                               member_id (member_list ! member2_idx)],
                              task_list ! task_idx, M ! task_idx ! col_idx))
                   else ([member_id (member_list ! (col_idx - ?np))],
                         task_list ! task_idx, M ! task_idx ! col_idx)"
  have tot: "(\<Sum>i\<leftarrow>[0..<length [0..<?n]]. M ! ([0..<?n] ! i) ! (cols ! i))
               = (\<Sum>i\<leftarrow>[0..<?n]. M ! i ! (cols ! i))"
    by (rule arg_cong[where f = sum_list], rule map_cong) simp_all
  have run: "assign_phase1 task_list member_list
       = Inr (map ?decode (zip [0..<?n] cols),
              \<Sum>i\<leftarrow>[0..<length [0..<?n]]. M ! ([0..<?n] ! i) ! (cols ! i))"
    using M(1) lsa by (simp add: assign_phase1_def Let_def)
  have dec: "map ?decode (zip [0..<?n] cols) = map (\<lambda>i. ?decode (i, cols ! i)) [0..<?n]"
    by (simp add: zip_upt_nth[OF lc] comp_def)
  have cost1: "assignment_cost M cols = (\<Sum>i\<leftarrow>[0..<?n]. M ! i ! (cols ! i))"
    by (simp add: assignment_cost_def lc)
  have cost2: "assignment_cost M col_of_task = (\<Sum>i\<leftarrow>[0..<?n]. M ! i ! (col_of_task ! i))"
    by (simp add: assignment_cost_def len)
  from opt cost1 cost2 have le: "(\<Sum>i\<leftarrow>[0..<?n]. M ! i ! (cols ! i))
                                   \<le> (\<Sum>i\<leftarrow>[0..<?n]. M ! i ! (col_of_task ! i))" by simp
  show ?thesis
    apply (rule exI[of _ "map (\<lambda>i. ?decode (i, cols ! i)) [0..<?n]"])
    apply (rule exI[of _ "\<Sum>i\<leftarrow>[0..<?n]. M ! i ! (cols ! i)"])
    apply (rule exI[of _ M])
    apply (rule exI[of _ cols])
    using run dec tot M(1) lc dc bc le apply simp
    done
qed

theorem assign_phase1_total_cost_minimal_witness:
  "length [2, 0 :: nat] = length [[2], [5 :: rat]] \<and> distinct [2, 0 :: nat] \<and>
   phase1_cost_matrix [[2], [5]]
     [\<lparr>member_id = 7, abilities = [1], energy = 10, incapacitated = False\<rparr>,
      \<lparr>member_id = 8, abilities = [4], energy = 10, incapacitated = False\<rparr>]
     = Inr [[5, 1, 0], [4, 4, 1]] \<and>
   assign_phase1 [[2], [5]]
     [\<lparr>member_id = 7, abilities = [1], energy = 10, incapacitated = False\<rparr>,
      \<lparr>member_id = 8, abilities = [4], energy = 10, incapacitated = False\<rparr>]
     = Inr ([([7], [2], 1), ([8], [5], 1)], 2) \<and>
   (\<exists>assignments total_cost cost_matrix cols.
      assign_phase1 [[2], [5]]
        [\<lparr>member_id = 7, abilities = [1], energy = 10, incapacitated = False\<rparr>,
      \<lparr>member_id = 8, abilities = [4], energy = 10, incapacitated = False\<rparr>]
        = Inr (assignments, total_cost) \<and>
      phase1_cost_matrix [[2], [5]]
        [\<lparr>member_id = 7, abilities = [1], energy = 10, incapacitated = False\<rparr>,
      \<lparr>member_id = 8, abilities = [4], energy = 10, incapacitated = False\<rparr>]
        = Inr cost_matrix \<and>
      length cols = 2 \<and> distinct cols \<and> list_all (\<lambda>c. c < 3) cols \<and>
      total_cost = (\<Sum>i\<leftarrow>[0..<2]. cost_matrix ! i ! (cols ! i)) \<and>
      total_cost \<le> (\<Sum>i\<leftarrow>[0..<2]. cost_matrix ! i ! ([2, 0] ! i)))"
proof -
  let ?ms = "[\<lparr>member_id = 7, abilities = [1], energy = 10, incapacitated = False\<rparr>,
      \<lparr>member_id = 8, abilities = [4], energy = 10, incapacitated = False\<rparr>]"
  have "\<exists>assignments total_cost cost_matrix cols.
      assign_phase1 [[2], [5]] ?ms = Inr (assignments, total_cost) \<and>
      phase1_cost_matrix [[2], [5]] ?ms = Inr cost_matrix \<and>
      length cols = length [[2], [5 :: rat]] \<and> distinct cols \<and>
      (\<forall>c\<in>set cols. c < length (all_partnerships (length ?ms)) + length ?ms) \<and>
      assignments =
        map (\<lambda>i. if cols ! i < length (all_partnerships (length ?ms))
                  then (case all_partnerships (length ?ms) ! (cols ! i) of
                          (member1_idx, member2_idx) \<Rightarrow>
                            ([member_id (?ms ! member1_idx),
                              member_id (?ms ! member2_idx)],
                             [[2], [5]] ! i, cost_matrix ! i ! (cols ! i)))
                  else ([member_id (?ms
                             ! (cols ! i - length (all_partnerships (length ?ms))))],
                        [[2], [5]] ! i, cost_matrix ! i ! (cols ! i)))
          [0..<length [[2], [5 :: rat]]] \<and>
      total_cost = (\<Sum>i\<leftarrow>[0..<length [[2], [5 :: rat]]]. cost_matrix ! i ! (cols ! i)) \<and>
      total_cost \<le> (\<Sum>i\<leftarrow>[0..<length [[2], [5 :: rat]]]. cost_matrix ! i ! ([2, 0] ! i))"
    by (rule assign_phase1_total_cost_minimal[where d = 1])
       (simp_all add: all_partnerships_def upt_rec)
  then obtain assignments total_cost cost_matrix cols where
    r: "assign_phase1 [[2], [5]] ?ms = Inr (assignments, total_cost)"
       "phase1_cost_matrix [[2], [5]] ?ms = Inr cost_matrix"
       "length cols = length [[2], [5 :: rat]]" "distinct cols"
       "\<forall>c\<in>set cols. c < length (all_partnerships (length ?ms)) + length ?ms"
       "total_cost = (\<Sum>i\<leftarrow>[0..<length [[2], [5 :: rat]]]. cost_matrix ! i ! (cols ! i))"
       "total_cost \<le> (\<Sum>i\<leftarrow>[0..<length [[2], [5 :: rat]]]. cost_matrix ! i ! ([2, 0] ! i))"
    by blast
  have ncols: "length (all_partnerships (length ?ms)) + length ?ms = 3"
    by (simp add: all_partnerships_def upt_rec)
  have two: "length [[2], [5 :: rat]] = 2" by simp
  from r(5) have "list_all (\<lambda>c. c < 3) cols"
    unfolding ncols by (simp add: list_all_iff)
  with r(1,2,3,4,6,7) have "\<exists>assignments total_cost cost_matrix cols.
      assign_phase1 [[2], [5]] ?ms = Inr (assignments, total_cost) \<and>
      phase1_cost_matrix [[2], [5]] ?ms = Inr cost_matrix \<and>
      length cols = 2 \<and> distinct cols \<and> list_all (\<lambda>c. c < 3) cols \<and>
      total_cost = (\<Sum>i\<leftarrow>[0..<2]. cost_matrix ! i ! (cols ! i)) \<and>
      total_cost \<le> (\<Sum>i\<leftarrow>[0..<2]. cost_matrix ! i ! ([2, 0] ! i))"
    unfolding two by blast
  moreover have "phase1_cost_matrix [[2], [5]] ?ms = Inr [[5, 1, 0], [4, 4, 1]]"
    by code_simp
  moreover have "assign_phase1 [[2], [5]] ?ms = Inr ([([7], [2], 1), ([8], [5], 1)], 2)"
    by code_simp
  moreover have "length [2, 0 :: nat] = length [[2], [5 :: rat]]" "distinct [2, 0 :: nat]"
    by simp_all
  ultimately show ?thesis by (intro conjI)
qed

end
